theory Spec2Isabelle
  imports Main "HOL-Library.AList"
begin

section \<open>The watcher: data model\<close>

text \<open>
  The watcher class \<^verbatim>\<open>FSWatcher\<close> is embedded by explicit state passing. Every method
  takes the watcher state and returns the new one. What the source reads from outside the
  watcher (the clock, \<^verbatim>\<open>fs.stat\<close>, the functions of Node's \<^verbatim>\<open>path\<close> module, the platform
  flag) is a field of the environment record \<open>env\<close> handed to each call. Timers are kept in
  the state as a table of armed callbacks; a timer fires when the environment runs \<open>fire\<close>.
  \<^verbatim>\<open>EventEmitter.emit\<close> appends the argument list of the call to the log \<open>emitted\<close>.
\<close>

type_synonym path = string

datatype event =
  EV_ALL | EV_READY | EV_ADD | EV_CHANGE | EV_UNLINK | EV_ADD_DIR | EV_UNLINK_DIR
  | EV_RAW | EV_ERROR

record stats =
  st_size :: int
  st_mtimeMs :: int

datatype error = Error (err_code: "string option")

datatype val = Undefined | VEvent event | VPath path | VStats stats | VErr error

text \<open>The first argument of \<^verbatim>\<open>_throttle\<close>: an event name or one of the handler's own kinds.\<close>

datatype action = Act event | Act_watch | Act_readdir | Act_remove

datatype atomic_opt = AtomicBool bool | AtomicNumber int

record awf_opts =
  stabilityThreshold :: int
  pollInterval :: int

record options =
  cwd :: "path option"
  atomic :: atomic_opt
  awaitWriteFinish :: "awf_opts option"
  alwaysStat :: bool
  ignorePermissionErrors :: bool
  persistent :: bool
  useFsEvents :: bool
  disableGlobbing :: bool

record env =
  isWindows :: bool
  sysPath_normalize :: "path \<Rightarrow> path"
  sysPath_relative :: "path \<Rightarrow> path \<Rightarrow> path"
  sysPath_join :: "path \<Rightarrow> path \<Rightarrow> path"
  sysPath_isAbsolute :: "path \<Rightarrow> bool"
  now :: int
  fs_stat :: "path \<Rightarrow> error + stats"

text \<open>The throttle object \<^verbatim>\<open>{ timeoutObject, clear, count }\<close>; \<^verbatim>\<open>clear\<close> is the callback
  \<open>CB_clear\<close> below.\<close>

record thr =
  thr_timeoutObject :: nat
  thr_count :: nat

text \<open>What the closures \<^verbatim>\<open>poll\<close> and \<^verbatim>\<open>awfEmit\<close> capture.\<close>

record poll_closure =
  pc_path :: path
  pc_fullPath :: path
  pc_threshold :: int
  pc_event :: event
  pc_args :: "val list"

datatype callback =
  CB_clear nat path nat
  | CB_unlinks
  | CB_poll poll_closure "stats option"

record pending_write =
  lastChange :: int
  cancelWait_event :: event
  timeoutHandle :: nat

datatype ready_fn = READY_CLOSURE | EMPTY_FN

record fsw =
  opts :: options
  closed :: bool
  readyCount :: "int option"
  readyCalls :: int
  emitReady_slot :: ready_fn
  readyEmitted :: bool
  ignoredPaths :: "path list"
  userIgnored :: bool
  watched :: "(path \<times> string list) list"
  closers :: "(path \<times> nat list) list"
  streams :: "nat list"
  symlinkPaths :: "(path \<times> path) list"
  throttled :: "(action \<times> nat) list"
  actionMaps :: "nat \<Rightarrow> (path \<times> thr) list"
  nextMap :: nat
  pendingUnlinks :: "(path \<times> val list) list"
  pendingWrites :: "(path \<times> pending_write) list"
  timers :: "(nat \<times> int \<times> callback) list"
  nextTimer :: nat
  listeners :: "event list"
  emitted :: "val list list"

text \<open>JavaScript truthiness of the two options that are tested as conditions.\<close>

fun truthy_atomic :: "atomic_opt \<Rightarrow> bool" where
  "truthy_atomic (AtomicBool b) = b"
| "truthy_atomic (AtomicNumber n) = (n \<noteq> 0)"

fun truthy_cwd :: "path option \<Rightarrow> bool" where
  "truthy_cwd None = False"
| "truthy_cwd (Some c) = (c \<noteq> [])"

text \<open>An assignment \<^verbatim>\<open>a[i] = v\<close> to a JavaScript array: past the end it extends the array,
  the holes reading as \<^verbatim>\<open>undefined\<close>.\<close>

definition array_set :: "val list \<Rightarrow> nat \<Rightarrow> val \<Rightarrow> val list" where
  "array_set a i v =
     (if i < length a then a[i := v] else a @ replicate (i - length a) Undefined @ [v])"

section \<open>Emitting\<close>

definition emit :: "val list \<Rightarrow> fsw \<Rightarrow> fsw" where
  "emit call s = s\<lparr>emitted := emitted s @ [call]\<rparr>"

definition emitWithAll :: "event \<Rightarrow> val list \<Rightarrow> fsw \<Rightarrow> fsw" where
  "emitWithAll event args s =
     (let s1 = emit args s
      in if event \<noteq> EV_ERROR then emit (VEvent EV_ALL # args) s1 else s1)"

definition setTimeout :: "callback \<Rightarrow> int \<Rightarrow> fsw \<Rightarrow> nat \<times> fsw" where
  "setTimeout cb delay s =
     (nextTimer s,
      s\<lparr>timers := timers s @ [(nextTimer s, delay, cb)], nextTimer := nextTimer s + 1\<rparr>)"

definition clearTimeout :: "nat \<Rightarrow> fsw \<Rightarrow> fsw" where
  "clearTimeout tid s = s\<lparr>timers := AList.delete tid (timers s)\<rparr>"

section \<open>Error policy\<close>

text \<open>\<^verbatim>\<open>_handleError(error)\<close> returns \<^verbatim>\<open>error || this.closed\<close>: the error when there is one,
  the closed flag otherwise.\<close>

definition FSWatcher_handleError :: "error option \<Rightarrow> fsw \<Rightarrow> (error + bool) \<times> fsw" where
  "FSWatcher_handleError error s =
     (let code = (case error of None \<Rightarrow> None | Some e \<Rightarrow> err_code e);
          s1 = (case error of
                  None \<Rightarrow> s
                | Some e \<Rightarrow>
                    if code \<noteq> Some ''ENOENT'' \<and> code \<noteq> Some ''ENOTDIR'' \<and>
                       (\<not> ignorePermissionErrors (opts s) \<or>
                        (code \<noteq> Some ''EPERM'' \<and> code \<noteq> Some ''EACCES''))
                    then emit [VEvent EV_ERROR, VErr e] s
                    else s)
      in (case error of None \<Rightarrow> Inr (closed s) | Some e \<Rightarrow> Inl e, s1))"

section \<open>Throttle table\<close>

text \<open>
  \<^verbatim>\<open>_throttled\<close> is a map from action type to a map from path to throttle object. The
  inner maps are objects that the \<^verbatim>\<open>clear\<close> closures keep a reference to, also after
  \<^verbatim>\<open>close()\<close> has emptied the outer map, so they live in the store \<open>actionMaps\<close> and the
  outer map holds their addresses.
\<close>

definition throttle_clear :: "nat \<Rightarrow> path \<Rightarrow> nat \<Rightarrow> fsw \<Rightarrow> nat \<times> fsw" where
  "throttle_clear ref path timeoutObject s =
     (let actionMap = actionMaps s ref;
          item = map_of actionMap path;
          count = (case item of None \<Rightarrow> 0 | Some i \<Rightarrow> thr_count i);
          s1 = s\<lparr>actionMaps := (actionMaps s)(ref := AList.delete path actionMap)\<rparr>;
          s2 = clearTimeout timeoutObject s1;
          s3 = (case item of None \<Rightarrow> s2 | Some i \<Rightarrow> clearTimeout (thr_timeoutObject i) s2)
      in (count, s3))"

text \<open>The result is \<open>None\<close> for \<^verbatim>\<open>false\<close> and the new throttle object's \<^verbatim>\<open>clear\<close> closure
  (store address, path, timer) otherwise.\<close>

definition FSWatcher_throttle ::
  "action \<Rightarrow> path \<Rightarrow> int \<Rightarrow> fsw \<Rightarrow> (nat \<times> path \<times> nat) option \<times> fsw" where
  "FSWatcher_throttle actionType path timeout s =
     (let (ref, s1) =
            (case map_of (throttled s) actionType of
               Some r \<Rightarrow> (r, s)
             | None \<Rightarrow>
                 (nextMap s,
                  s\<lparr>throttled := throttled s @ [(actionType, nextMap s)],
                    actionMaps := (actionMaps s)(nextMap s := []),
                    nextMap := nextMap s + 1\<rparr>));
          actionMap = actionMaps s1 ref
      in case map_of actionMap path of
           Some existing \<Rightarrow>
             (None,
              s1\<lparr>actionMaps := (actionMaps s1)
                     (ref := AList.update path
                               (existing\<lparr>thr_count := thr_count existing + 1\<rparr>) actionMap)\<rparr>)
         | None \<Rightarrow>
             (let (timeoutObject, s2) =
                    setTimeout (CB_clear ref path (nextTimer s1)) timeout s1;
                  thr = \<lparr>thr_timeoutObject = timeoutObject, thr_count = 0\<rparr>
              in (Some (ref, path, timeoutObject),
                  s2\<lparr>actionMaps := (actionMaps s2)
                         (ref := AList.update path thr actionMap)\<rparr>)))"

text \<open>The slot held for an action type and a path, if any.\<close>

definition throttle_slot :: "fsw \<Rightarrow> action \<Rightarrow> path \<Rightarrow> thr option" where
  "throttle_slot s actionType path =
     (case map_of (throttled s) actionType of
        None \<Rightarrow> None
      | Some r \<Rightarrow> map_of (actionMaps s r) path)"

section \<open>Write-settle tracker\<close>

text \<open>
  \<^verbatim>\<open>awfEmit\<close> is the closure built in \<^verbatim>\<open>_emit\<close>; it captures the event and the argument
  array. \<^verbatim>\<open>poll\<close> is the body of the \<^verbatim>\<open>fs.stat\<close> callback of one poll tick: the tick and the
  answer of \<^verbatim>\<open>fs.stat\<close> are one step of the model, the answer being read from the
  environment. The closure variable \<^verbatim>\<open>timeoutHandle\<close> is kept in the pending-write slot.
\<close>

definition awfEmit :: "poll_closure \<Rightarrow> error option \<Rightarrow> stats option \<Rightarrow> fsw \<Rightarrow> fsw" where
  "awfEmit c err stats s =
     (case err of
        Some e \<Rightarrow>
          emitWithAll EV_ERROR (array_set (array_set (pc_args c) 0 (VEvent EV_ERROR)) 1 (VErr e)) s
      | None \<Rightarrow>
          (case stats of
             None \<Rightarrow> s
           | Some st \<Rightarrow>
               emitWithAll (pc_event c)
                 (if length (pc_args c) > 2 then array_set (pc_args c) 2 (VStats st)
                  else pc_args c @ [VStats st]) s))"

definition poll :: "env \<Rightarrow> poll_closure \<Rightarrow> stats option \<Rightarrow> fsw \<Rightarrow> fsw" where
  "poll E c prevStat s =
     (case fs_stat E (pc_fullPath c) of
        Inl err \<Rightarrow>
          (if err_code err \<noteq> Some ''ENOENT'' then awfEmit c (Some err) None s else s)
      | Inr curStat \<Rightarrow>
          (case map_of (pendingWrites s) (pc_path c) of
             None \<Rightarrow> s
           | Some pw0 \<Rightarrow>
               (let nowNum = now E;
                    pw = (case prevStat of
                            None \<Rightarrow> pw0
                          | Some prev \<Rightarrow>
                              if st_size curStat \<noteq> st_size prev
                              then pw0\<lparr>lastChange := nowNum\<rparr> else pw0);
                    dt = nowNum - lastChange pw
                in if dt \<ge> pc_threshold c
                   then awfEmit c None (Some curStat)
                          (s\<lparr>pendingWrites := AList.delete (pc_path c) (pendingWrites s)\<rparr>)
                   else
                     (case awaitWriteFinish (opts s) of
                        None \<Rightarrow> s\<lparr>pendingWrites := AList.update (pc_path c) pw (pendingWrites s)\<rparr>
                      | Some awf \<Rightarrow>
                          (let (h, s1) = setTimeout (CB_poll c (Some curStat)) (pollInterval awf) s
                           in s1\<lparr>pendingWrites :=
                                  AList.update (pc_path c) (pw\<lparr>timeoutHandle := h\<rparr>)
                                    (pendingWrites s1)\<rparr>)))))"

definition cancelWait :: "path \<Rightarrow> fsw \<Rightarrow> event option \<times> fsw" where
  "cancelWait path s =
     (case map_of (pendingWrites s) path of
        None \<Rightarrow> (None, s)
      | Some pw \<Rightarrow>
          (Some (cancelWait_event pw),
           clearTimeout (timeoutHandle pw)
             (s\<lparr>pendingWrites := AList.delete path (pendingWrites s)\<rparr>)))"

text \<open>\<^verbatim>\<open>_awaitWriteFinish(path, threshold, event, awfEmit)\<close>; the last argument is given by the
  argument array \<^verbatim>\<open>awfEmit\<close> closes over. The method is only called with
  \<^verbatim>\<open>awaitWriteFinish\<close> configured.\<close>

definition FSWatcher_awaitWriteFinish ::
  "env \<Rightarrow> path \<Rightarrow> int \<Rightarrow> event \<Rightarrow> val list \<Rightarrow> fsw \<Rightarrow> fsw" where
  "FSWatcher_awaitWriteFinish E path threshold event args s =
     (let fullPath =
            (case cwd (opts s) of
               None \<Rightarrow> path
             | Some c \<Rightarrow>
                 if c \<noteq> [] \<and> \<not> sysPath_isAbsolute E path then sysPath_join E c path else path);
          c = \<lparr>pc_path = path, pc_fullPath = fullPath, pc_threshold = threshold,
               pc_event = event, pc_args = args\<rparr>
      in if map_of (pendingWrites s) path = None
         then
           (case awaitWriteFinish (opts s) of
              None \<Rightarrow> s
            | Some awf \<Rightarrow>
                (let (h, s1) = setTimeout (CB_poll c None) (pollInterval awf) s
                 in s1\<lparr>pendingWrites :=
                        AList.update path
                          \<lparr>lastChange = now E, cancelWait_event = event, timeoutHandle = h\<rparr>
                          (pendingWrites s1)\<rparr>))
         else s)"

section \<open>The emission pipeline\<close>

definition emit_path :: "env \<Rightarrow> options \<Rightarrow> path \<Rightarrow> path" where
  "emit_path E os path =
     (let p1 = (if isWindows E then sysPath_normalize E path else path)
      in case cwd os of
           None \<Rightarrow> p1
         | Some c \<Rightarrow> if c \<noteq> [] then sysPath_relative E c p1 else p1)"

definition emit_args :: "event \<Rightarrow> path \<Rightarrow> val \<Rightarrow> val \<Rightarrow> val \<Rightarrow> val list" where
  "emit_args event path val1 val2 val3 =
     [VEvent event, VPath path] @
     (if val3 \<noteq> Undefined then [val1, val2, val3]
      else if val2 \<noteq> Undefined then [val1, val2]
      else if val1 \<noteq> Undefined then [val1]
      else [])"

fun atomic_delay :: "atomic_opt \<Rightarrow> int" where
  "atomic_delay (AtomicNumber n) = n"
| "atomic_delay (AtomicBool b) = 100"

text \<open>The timer callback of the atomic block: every pending unlink is emitted on its own
  channel and on \<^verbatim>\<open>all\<close>, and removed.\<close>

definition drain_pendingUnlinks :: "fsw \<Rightarrow> fsw" where
  "drain_pendingUnlinks s =
     fold (\<lambda>(pth, entry) s'.
             (emit (VEvent EV_ALL # entry) (emit entry s'))
               \<lparr>pendingUnlinks := AList.delete pth (pendingUnlinks s')\<rparr>)
          (pendingUnlinks s) s"

text \<open>
  \<^verbatim>\<open>_emit(event, path, val1, val2, val3)\<close>. The \<^verbatim>\<open>await stat(fullPath)\<close> of the
  \<^verbatim>\<open>alwaysStat\<close> branch is answered by the environment within the step. The method is
  written in two parts: \<open>emit_deliver\<close> is its tail from the throttling of \<^verbatim>\<open>change\<close>
  events to the final \<^verbatim>\<open>emitWithAll\<close>, and \<open>FSWatcher_emit\<close> is the method, ending in that
  tail.
\<close>

definition emit_deliver :: "env \<Rightarrow> event \<Rightarrow> path \<Rightarrow> val list \<Rightarrow> val \<Rightarrow> fsw \<Rightarrow> fsw" where
  "emit_deliver E event path args val1 s1 =
     (let (isThrottled, s2) =
            (if event = EV_CHANGE
             then (let (t, s') = FSWatcher_throttle (Act EV_CHANGE) path 50 s1
                   in (t = None, s'))
             else (False, s1))
      in if isThrottled then s2
         else if alwaysStat (opts s1) \<and> val1 = Undefined \<and>
                 (event = EV_ADD \<or> event = EV_ADD_DIR \<or> event = EV_CHANGE)
         then
           (let fullPath =
                  (case cwd (opts s1) of
                     None \<Rightarrow> path
                   | Some c \<Rightarrow> if c \<noteq> [] then sysPath_join E c path else path)
            in case fs_stat E fullPath of
                 Inl err \<Rightarrow> s2
               | Inr st \<Rightarrow>
                   if closed s2 then s2
                   else emitWithAll event (args @ [VStats st]) s2)
         else emitWithAll event args s2)"

definition FSWatcher_emit ::
  "env \<Rightarrow> event \<Rightarrow> path \<Rightarrow> val \<Rightarrow> val \<Rightarrow> val \<Rightarrow> fsw \<Rightarrow> fsw" where
  "FSWatcher_emit E event0 path0 val1 val2 val3 s =
     (if closed s then s
      else
        let os = opts s;
            path = emit_path E os path0;
            args0 = emit_args event0 path val1 val2 val3;
            awf = awaitWriteFinish os
        in case (if awf = None then None else map_of (pendingWrites s) path) of
             Some pw \<Rightarrow>
               s\<lparr>pendingWrites :=
                   AList.update path (pw\<lparr>lastChange := now E\<rparr>) (pendingWrites s)\<rparr>
           | None \<Rightarrow>
               if truthy_atomic (atomic os) \<and> event0 = EV_UNLINK
               then snd (setTimeout CB_unlinks (atomic_delay (atomic os))
                          (s\<lparr>pendingUnlinks := AList.update path args0 (pendingUnlinks s)\<rparr>))
               else
                 let collapse = (truthy_atomic (atomic os) \<and> event0 = EV_ADD \<and>
                                 map_of (pendingUnlinks s) path \<noteq> None);
                     event = (if collapse then EV_CHANGE else event0);
                     args = (if collapse then array_set args0 0 (VEvent EV_CHANGE) else args0);
                     s1 = (if collapse
                           then s\<lparr>pendingUnlinks := AList.delete path (pendingUnlinks s)\<rparr>
                           else s)
                 in (case (if (event = EV_ADD \<or> event = EV_CHANGE) \<and> readyEmitted s1
                           then awf else None) of
                      Some a \<Rightarrow>
                        FSWatcher_awaitWriteFinish E path (stabilityThreshold a) event args s1
                    | None \<Rightarrow> emit_deliver E event path args val1 s1))"

section \<open>Timers\<close>

definition run_callback :: "env \<Rightarrow> callback \<Rightarrow> fsw \<Rightarrow> fsw" where
  "run_callback E cb s =
     (case cb of
        CB_clear ref path t \<Rightarrow> snd (throttle_clear ref path t s)
      | CB_unlinks \<Rightarrow> drain_pendingUnlinks s
      | CB_poll c prevStat \<Rightarrow> poll E c prevStat s)"

text \<open>An armed timer fires: it leaves the table and its callback runs.\<close>

definition fire :: "env \<Rightarrow> nat \<Rightarrow> fsw \<Rightarrow> fsw" where
  "fire E tid s =
     (case map_of (timers s) tid of
        None \<Rightarrow> s
      | Some (delay, cb) \<Rightarrow> run_callback E cb (s\<lparr>timers := AList.delete tid (timers s)\<rparr>))"

section \<open>Readiness\<close>

text \<open>
  \<^verbatim>\<open>_readyCount\<close> is \<^verbatim>\<open>undefined\<close> until the first \<^verbatim>\<open>add\<close> and \<^verbatim>\<open>NaN\<close> after
  \<^verbatim>\<open>undefined++\<close>; both are \<open>None\<close> here: falsy, and never below \<^verbatim>\<open>readyCalls\<close>. The
  property \<^verbatim>\<open>_emitReady\<close> holds either the closure installed by the constructor
  (\<open>READY_CLOSURE\<close>, with its counter \<^verbatim>\<open>readyCalls\<close>) or \<^verbatim>\<open>EMPTY_FN\<close>. The
  \<^verbatim>\<open>process.nextTick\<close> emission of \<^verbatim>\<open>ready\<close> is logged at the call.
\<close>

definition ready_closure :: "fsw \<Rightarrow> fsw" where
  "ready_closure s =
     (let s1 = s\<lparr>readyCalls := readyCalls s + 1\<rparr>
      in case readyCount s1 of
           None \<Rightarrow> s1
         | Some n \<Rightarrow>
             if readyCalls s1 \<ge> n
             then emit [VEvent EV_READY] (s1\<lparr>emitReady_slot := EMPTY_FN, readyEmitted := True\<rparr>)
             else s1)"

fun call_ready :: "ready_fn \<Rightarrow> fsw \<Rightarrow> fsw" where
  "call_ready READY_CLOSURE s = ready_closure s"
| "call_ready EMPTY_FN s = s"

definition FSWatcher_emitReady :: "fsw \<Rightarrow> fsw" where
  "FSWatcher_emitReady s = call_ready (emitReady_slot s) s"

definition FSWatcher_incrReadyCount :: "fsw \<Rightarrow> fsw" where
  "FSWatcher_incrReadyCount s =
     s\<lparr>readyCount := (case readyCount s of None \<Rightarrow> None | Some n \<Rightarrow> Some (n + 1))\<rparr>"

section \<open>Construction, add and close\<close>

datatype awf_user = AwfFalse | AwfTrue | AwfObject "int option" "int option"

text \<open>The constructor's defaults for \<^verbatim>\<open>awaitWriteFinish\<close>: a missing or zero field is
  replaced.\<close>

fun resolve_awaitWriteFinish :: "awf_user \<Rightarrow> awf_opts option" where
  "resolve_awaitWriteFinish AwfFalse = None"
| "resolve_awaitWriteFinish AwfTrue = Some \<lparr>stabilityThreshold = 2000, pollInterval = 100\<rparr>"
| "resolve_awaitWriteFinish (AwfObject st pi) =
     Some \<lparr>stabilityThreshold = (case st of None \<Rightarrow> 2000 | Some n \<Rightarrow> if n = 0 then 2000 else n),
           pollInterval = (case pi of None \<Rightarrow> 100 | Some n \<Rightarrow> if n = 0 then 100 else n)\<rparr>"

definition new_FSWatcher :: "options \<Rightarrow> fsw" where
  "new_FSWatcher os =
     \<lparr>opts = os, closed = False, readyCount = None, readyCalls = 0,
      emitReady_slot = READY_CLOSURE, readyEmitted = False, ignoredPaths = [],
      userIgnored = False, watched = [], closers = [], streams = [], symlinkPaths = [],
      throttled = [], actionMaps = (\<lambda>r. []), nextMap = 0, pendingUnlinks = [],
      pendingWrites = [], timers = [], nextTimer = 0, listeners = [], emitted = []\<rparr>"

datatype jsval =
  JUndefined | JNull | JBool bool | JNumber int | JString string | JObject
  | JArray "jsval list"

datatype exn = TypeError | RangeError

fun arrify :: "jsval \<Rightarrow> jsval list" where
  "arrify JUndefined = []"
| "arrify (JArray xs) = xs"
| "arrify v = [v]"

fun flatten :: "jsval list \<Rightarrow> jsval list" where
  "flatten [] = []"
| "flatten (JArray xs # rest) = flatten xs @ flatten rest"
| "flatten (v # rest) = v # flatten rest"

fun is_string :: "jsval \<Rightarrow> bool" where
  "is_string (JString s) = True"
| "is_string v = False"

fun string_of :: "jsval \<Rightarrow> string" where
  "string_of (JString s) = s"
| "string_of v = []"

text \<open>\<^verbatim>\<open>normalizePathToUnix\<close> rests on Node's \<^verbatim>\<open>path.normalize\<close> and on regular expressions
  of the constants module; it is a parameter here, as are \<^verbatim>\<open>isGlob\<close> and
  \<^verbatim>\<open>normalizePath\<close>.\<close>

record path_fns =
  normalizePathToUnix :: "path \<Rightarrow> path"
  isGlob :: "path \<Rightarrow> bool"
  normalizePath :: "path \<Rightarrow> path"

definition unifyPaths :: "path_fns \<Rightarrow> jsval \<Rightarrow> exn + path list" where
  "unifyPaths F paths' =
     (let paths = flatten (arrify paths')
      in if \<not> list_all is_string paths then Inl TypeError
         else Inr (map (\<lambda>p. normalizePathToUnix F (string_of p)) paths))"

text \<open>Modelled from the spec: the constants module \<^verbatim>\<open>./lib/constants\<close> is not among the
  sources. Negation is a leading \<^verbatim>\<open>!\<close> (\<^verbatim>\<open>BANG\<close>), and \<^verbatim>\<open>SLASH_GLOBSTAR\<close> is the
  suffix that ignores everything below a path. The event names are the channels the spec
  lists, pairwise different.\<close>

definition BANG :: string where
  "BANG = ''!''"

definition SLASH_GLOBSTAR :: string where
  "SLASH_GLOBSTAR = ''/**''"

definition startsWith :: "string \<Rightarrow> string \<Rightarrow> bool" where
  "startsWith s pre = (take (length pre) s = pre)"

text \<open>\<^verbatim>\<open>Set.prototype.add\<close> on a set kept in insertion order.\<close>

definition set_add :: "'a \<Rightarrow> 'a list \<Rightarrow> 'a list" where
  "set_add x xs = (if x \<in> set xs then xs else xs @ [x])"

definition getAbsolutePath :: "env \<Rightarrow> path \<Rightarrow> path \<Rightarrow> path" where
  "getAbsolutePath E path c =
     (if sysPath_isAbsolute E path then path
      else if startsWith path BANG then BANG @ sysPath_join E c (drop 1 path)
      else sysPath_join E c path)"

text \<open>The filter callback of \<^verbatim>\<open>add\<close>, run over the paths in order: a negated path goes to
  the ignore set and is dropped, any other is kept and un-ignored.\<close>

fun add_filter :: "path list \<Rightarrow> fsw \<Rightarrow> path list \<times> fsw" where
  "add_filter [] s = ([], s)"
| "add_filter (p # ps) s =
     (if startsWith p BANG
      then add_filter ps (s\<lparr>ignoredPaths := set_add (drop 1 p) (ignoredPaths s)\<rparr>)
      else
        (let (kept, s') =
               add_filter ps
                 (s\<lparr>ignoredPaths := removeAll (p @ SLASH_GLOBSTAR) (removeAll p (ignoredPaths s)),
                    userIgnored := False\<rparr>)
         in (p # kept, s')))"

text \<open>
  \<^verbatim>\<open>add(paths_)\<close> up to the hand-over to the backend: the result is the exception thrown,
  or the paths whose watching the backend then starts. The state is returned in both
  cases, since \<^verbatim>\<open>this.closed = false\<close> precedes the call that can throw.
\<close>

definition FSWatcher_add :: "env \<Rightarrow> path_fns \<Rightarrow> jsval \<Rightarrow> fsw \<Rightarrow> (exn + path list) \<times> fsw" where
  "FSWatcher_add E F paths' s =
     (let s0 = s\<lparr>closed := False\<rparr>
      in case unifyPaths F paths' of
           Inl e \<Rightarrow> (Inl e, s0)
         | Inr paths0 \<Rightarrow>
             (let paths1 =
                    (case cwd (opts s0) of
                       None \<Rightarrow> paths0
                     | Some c \<Rightarrow>
                         if c = [] then paths0
                         else map (\<lambda>p. let absPath = getAbsolutePath E p c
                                        in if disableGlobbing (opts s0) \<or> \<not> isGlob F p then absPath
                                           else normalizePath F absPath) paths0);
                  (paths, s1) = add_filter paths1 s0;
                  n = int (length paths);
                  falsy = (readyCount s1 = None \<or> readyCount s1 = Some 0)
              in if useFsEvents (opts s1)
                 then
                   (let c0 = (if falsy then Some n else readyCount s1);
                        c1 = (if persistent (opts s1)
                              then (case c0 of None \<Rightarrow> None | Some k \<Rightarrow> Some (k + n))
                              else c0)
                    in (Inr paths, s1\<lparr>readyCount := c1\<rparr>))
                 else
                   (let c0 = (if falsy then Some 0 else readyCount s1)
                    in (Inr paths,
                        s1\<lparr>readyCount := (case c0 of None \<Rightarrow> None | Some k \<Rightarrow> Some (k + n))\<rparr>))))"

text \<open>\<^verbatim>\<open>close()\<close>. The closers and streams are the backends' own; calling them changes
  nothing in the watcher's state.\<close>

definition FSWatcher_close :: "fsw \<Rightarrow> fsw" where
  "FSWatcher_close s =
     (if closed s then s
      else s\<lparr>closed := True, listeners := [], userIgnored := False,
             readyCount := Some 0, readyEmitted := False, watched := [],
             closers := [], streams := [], symlinkPaths := [], throttled := []\<rparr>)"

section \<open>Concrete configurations\<close>

text \<open>The options after the constructor's defaults on a platform without the native event
  backend, and a POSIX environment at a given time and file-system answer. They are the
  inputs of the instances evaluated below.\<close>

definition default_options :: options where
  "default_options =
     \<lparr>cwd = None, atomic = AtomicBool True, awaitWriteFinish = None, alwaysStat = False,
      ignorePermissionErrors = False, persistent = True, useFsEvents = False,
      disableGlobbing = False\<rparr>"

definition posix_env :: "int \<Rightarrow> (path \<Rightarrow> error + stats) \<Rightarrow> env" where
  "posix_env t fs =
     \<lparr>isWindows = False, sysPath_normalize = (\<lambda>p. p), sysPath_relative = (\<lambda>c p. p),
      sysPath_join = (\<lambda>c p. c @ ''/'' @ p), sysPath_isAbsolute = (\<lambda>p. startsWith p ''/''),
      now = t, fs_stat = fs\<rparr>"

definition no_file :: "path \<Rightarrow> error + stats" where
  "no_file p = Inl (Error (Some ''ENOENT''))"

definition file_of_size :: "int \<Rightarrow> int \<Rightarrow> path \<Rightarrow> error + stats" where
  "file_of_size n m p = Inr \<lparr>st_size = n, st_mtimeMs = m\<rparr>"

section \<open>Polling backend: the \<^verbatim>\<open>fs.watchFile\<close> listeners\<close>

text \<open>
  \<^verbatim>\<open>FsWatchFileInstances\<close> maps a full path to its container. A container's listeners are a
  single function or a \<^verbatim>\<open>Set\<close> of functions, here a list without repetition in insertion
  order; functions are named by numbers. \<open>cont_pathArg\<close> is the \<^verbatim>\<open>pathArg\<close> the watcher
  callback of the container closes over. Sizes are bytes and times are milliseconds.
\<close>

record watchFile_options =
  wf_persistent :: bool
  wf_interval :: int

record container =
  cont_listeners :: "nat list"
  cont_rawEmitters :: "nat list"
  cont_options :: watchFile_options
  cont_pathArg :: path

datatype wf_call =
  RawEmitter_call nat event path stats stats
  | Listener_call nat path stats

definition setFsWatchFileListener ::
  "path \<Rightarrow> path \<Rightarrow> watchFile_options \<Rightarrow> nat \<Rightarrow> nat \<Rightarrow> (path \<times> container) list
    \<Rightarrow> (path \<times> container) list" where
  "setFsWatchFileListener pathArg fullPath options listener rawEmitter instances =
     (let container =
            (case map_of instances fullPath of
               None \<Rightarrow> None
             | Some c \<Rightarrow>
                 if wf_persistent (cont_options c) < wf_persistent options \<or>
                    wf_interval (cont_options c) > wf_interval options
                 then None else Some c)
      in case container of
           Some c \<Rightarrow>
             AList.update fullPath
               (c\<lparr>cont_listeners := set_add listener (cont_listeners c),
                  cont_rawEmitters := set_add rawEmitter (cont_rawEmitters c)\<rparr>) instances
         | None \<Rightarrow>
             AList.update fullPath
               \<lparr>cont_listeners = [listener], cont_rawEmitters = [rawEmitter],
                cont_options = options, cont_pathArg = pathArg\<rparr> instances)"

text \<open>The callback handed to \<^verbatim>\<open>fs.watchFile\<close>, which Node calls with the current
  and the previous stat of the path: the calls it makes, in order.\<close>

definition watchFile_callback :: "path \<Rightarrow> container \<Rightarrow> stats \<Rightarrow> stats \<Rightarrow> wf_call list" where
  "watchFile_callback fullPath container cur prev =
     map (\<lambda>f. RawEmitter_call f EV_CHANGE fullPath cur prev) (cont_rawEmitters container) @
     (let currTime = st_mtimeMs cur
      in if st_size cur \<noteq> st_size prev \<or> currTime > st_mtimeMs prev \<or> currTime = 0
         then map (\<lambda>f. Listener_call f (cont_pathArg container) cur) (cont_listeners container)
         else [])"

definition watchFile_tick ::
  "(path \<times> container) list \<Rightarrow> path \<Rightarrow> stats \<Rightarrow> stats \<Rightarrow> wf_call list" where
  "watchFile_tick instances fullPath cur prev =
     (case map_of instances fullPath of
        None \<Rightarrow> []
      | Some c \<Rightarrow> watchFile_callback fullPath c cur prev)"

text \<open>One listener (function 0, raw emitter 1) registered for the path \<^verbatim>\<open>y\<close> of the
  directory \<^verbatim>\<open>/T\<close>, polled every 50 ms.\<close>

definition polled_instances :: "(path \<times> container) list" where
  "polled_instances =
     setFsWatchFileListener ''y'' ''/T/y'' \<lparr>wf_persistent = True, wf_interval = 50\<rparr> 0 1 []"

section \<open>Scenarios\<close>

text \<open>The states reached by running the watcher on concrete inputs; the instances evaluated
  below start from them.\<close>

definition plain_fns :: path_fns where
  "plain_fns =
     \<lparr>normalizePathToUnix = (\<lambda>p. p), isGlob = (\<lambda>p. False), normalizePath = (\<lambda>p. p)\<rparr>"

text \<open>A watcher that holds one throttle slot: \<^verbatim>\<open>change\<close> of \<^verbatim>\<open>a\<close>, window 50 ms.\<close>

definition throttled_once :: fsw where
  "throttled_once =
     snd (FSWatcher_throttle (Act EV_CHANGE) ''a'' 50 (new_FSWatcher default_options))"

text \<open>
  A watcher with write-settle (threshold 10 ms, poll interval 10 ms) on the directory
  \<^verbatim>\<open>T\<close>: a \<^verbatim>\<open>change\<close> of \<^verbatim>\<open>T/f\<close> arrives at time 0, before \<^verbatim>\<open>ready\<close>
  (\<open>settle_t1\<close>); the backend reports readiness (\<open>settle_t2\<close>); a second \<^verbatim>\<open>change\<close> of
  \<^verbatim>\<open>T/f\<close> arrives at time 20 (\<open>settle_t3\<close>); the poll timer fires at time 30
  (\<open>settle_t4\<close>).
\<close>

definition settle_options :: options where
  "settle_options =
     default_options\<lparr>atomic := AtomicBool False,
       awaitWriteFinish := resolve_awaitWriteFinish (AwfObject (Some 10) (Some 10))\<rparr>"

definition settle_t1 :: fsw where
  "settle_t1 =
     FSWatcher_emit (posix_env 0 (file_of_size 5 0)) EV_CHANGE ''T/f''
       (VStats \<lparr>st_size = 5, st_mtimeMs = 0\<rparr>) Undefined Undefined
       (snd (FSWatcher_add (posix_env 0 no_file) plain_fns (JString ''T'')
              (new_FSWatcher settle_options)))"

definition settle_t2 :: fsw where
  "settle_t2 = FSWatcher_emitReady settle_t1"

definition settle_t3 :: fsw where
  "settle_t3 =
     FSWatcher_emit (posix_env 20 (file_of_size 6 20)) EV_CHANGE ''T/f''
       (VStats \<lparr>st_size = 6, st_mtimeMs = 20\<rparr>) Undefined Undefined settle_t2"

definition settle_t4 :: fsw where
  "settle_t4 = fire (posix_env 30 (file_of_size 6 20)) 1 settle_t3"

text \<open>
  Atomic mode, no write-settle. \<open>atomic_b1\<close>: an \<^verbatim>\<open>unlink\<close> of \<^verbatim>\<open>T/c\<close> is pending. The
  other run is an editor that changes the file and then saves it atomically: a \<^verbatim>\<open>change\<close>
  of \<^verbatim>\<open>T/c\<close> at time 0 (\<open>atomic_a1\<close>), its \<^verbatim>\<open>unlink\<close> at time 10 (\<open>atomic_a2\<close>), its
  \<^verbatim>\<open>add\<close> at time 20 (\<open>atomic_a3\<close>), and the timer of the pending unlinks firing at time
  110 (\<open>atomic_a4\<close>).
\<close>

definition atomic_b1 :: fsw where
  "atomic_b1 =
     FSWatcher_emit (posix_env 0 no_file) EV_UNLINK ''T/c'' Undefined Undefined Undefined
       (new_FSWatcher default_options)"

definition atomic_a1 :: fsw where
  "atomic_a1 =
     FSWatcher_emit (posix_env 0 (file_of_size 5 0)) EV_CHANGE ''T/c''
       (VStats \<lparr>st_size = 5, st_mtimeMs = 0\<rparr>) Undefined Undefined
       (new_FSWatcher default_options)"

definition atomic_a2 :: fsw where
  "atomic_a2 =
     FSWatcher_emit (posix_env 10 no_file) EV_UNLINK ''T/c'' Undefined Undefined Undefined
       atomic_a1"

definition atomic_a3 :: fsw where
  "atomic_a3 =
     FSWatcher_emit (posix_env 20 (file_of_size 6 20)) EV_ADD ''T/c''
       (VStats \<lparr>st_size = 6, st_mtimeMs = 20\<rparr>) Undefined Undefined atomic_a2"

definition atomic_a4 :: fsw where
  "atomic_a4 = fire (posix_env 110 (file_of_size 6 20)) 1 atomic_a3"

text \<open>
  Write-settle with threshold 200 ms and poll interval 50 ms on the directory \<^verbatim>\<open>T\<close>, after
  \<^verbatim>\<open>ready\<close> (\<open>grow_ready\<close>): the file \<^verbatim>\<open>T/big\<close> is added at time 0 (\<open>grow_g1\<close>) and the
  first poll, at time 50, finds 10 bytes (\<open>grow_g2\<close>); \<open>grow_closure\<close> is the closure of
  the polls. And write-settle with threshold 50 ms and poll interval 100 ms: \<^verbatim>\<open>T/big\<close> is
  added at time 1000 with 1 byte (\<open>quick_q1\<close>), and the first poll, at time 1100, finds
  7 bytes (\<open>quick_q2\<close>).
\<close>

definition grow_options :: options where
  "grow_options =
     default_options\<lparr>atomic := AtomicBool False,
       awaitWriteFinish := resolve_awaitWriteFinish (AwfObject (Some 200) (Some 50))\<rparr>"

definition grow_ready :: fsw where
  "grow_ready =
     FSWatcher_emitReady
       (snd (FSWatcher_add (posix_env 0 no_file) plain_fns (JString ''T'')
              (new_FSWatcher grow_options)))"

definition grow_closure :: poll_closure where
  "grow_closure =
     \<lparr>pc_path = ''T/big'', pc_fullPath = ''T/big'', pc_threshold = 200, pc_event = EV_ADD,
      pc_args = [VEvent EV_ADD, VPath ''T/big'', VStats \<lparr>st_size = 1, st_mtimeMs = 0\<rparr>]\<rparr>"

definition grow_g1 :: fsw where
  "grow_g1 =
     FSWatcher_emit (posix_env 0 (file_of_size 1 0)) EV_ADD ''T/big''
       (VStats \<lparr>st_size = 1, st_mtimeMs = 0\<rparr>) Undefined Undefined grow_ready"

definition grow_g2 :: fsw where
  "grow_g2 = fire (posix_env 50 (file_of_size 10 50)) 0 grow_g1"

definition quick_options :: options where
  "quick_options =
     default_options\<lparr>atomic := AtomicBool False,
       awaitWriteFinish := resolve_awaitWriteFinish (AwfObject (Some 50) (Some 100))\<rparr>"

definition quick_q1 :: fsw where
  "quick_q1 =
     FSWatcher_emit (posix_env 1000 (file_of_size 1 1000)) EV_ADD ''T/big''
       (VStats \<lparr>st_size = 1, st_mtimeMs = 1000\<rparr>) Undefined Undefined
       (FSWatcher_emitReady
          (snd (FSWatcher_add (posix_env 0 no_file) plain_fns (JString ''T'')
                 (new_FSWatcher quick_options))))"

definition quick_q2 :: fsw where
  "quick_q2 = fire (posix_env 1100 (file_of_size 7 1100)) 0 quick_q1"

section \<open>Readiness in the per-directory backend\<close>

text \<open>
  \<^verbatim>\<open>NodeFsHandler._addToNodeFs\<close>, as far as readiness goes. The method reads the property
  \<^verbatim>\<open>_emitReady\<close> once, on entry, into the local \<^verbatim>\<open>ready\<close>, suspends at the stat of the
  path, and calls the local on its way out. \<open>addToNodeFs_enter\<close> is the method up to the
  stat (its argument says whether the path is ignored); \<open>addToNodeFs_resume\<close> is the rest,
  given what the stat and the handling of the entry came to. The scan of a directory and the
  registration of a file's listener are not part of this skeleton. \<open>add_settled\<close> is the
  continuation in \<^verbatim>\<open>add\<close>: \<^verbatim>\<open>if (res) this._emitReady()\<close>.
\<close>

datatype ret = Ret_false | Ret_undefined | Ret_path path

datatype entry_outcome = Stat_threw error | Found_ignored | Found_handled

definition addToNodeFs_enter :: "bool \<Rightarrow> fsw \<Rightarrow> (ret + ready_fn) \<times> fsw" where
  "addToNodeFs_enter ignored s =
     (let ready = emitReady_slot s
      in if ignored \<or> closed s then (Inl Ret_false, call_ready ready s)
         else (Inr ready, s))"

definition addToNodeFs_resume ::
  "path \<Rightarrow> ready_fn \<Rightarrow> entry_outcome \<Rightarrow> fsw \<Rightarrow> ret \<times> fsw" where
  "addToNodeFs_resume pathArg ready outcome s =
     (case outcome of
        Stat_threw err \<Rightarrow>
          (let (handled, s1) = FSWatcher_handleError (Some err) s
           in if (case handled of Inl e \<Rightarrow> True | Inr b \<Rightarrow> b)
              then (Ret_path pathArg, call_ready ready s1)
              else (Ret_undefined, s1))
      | Found_ignored \<Rightarrow>
          if closed s then (Ret_undefined, s) else (Ret_false, call_ready ready s)
      | Found_handled \<Rightarrow>
          if closed s then (Ret_undefined, s) else (Ret_false, call_ready ready s))"

definition add_settled :: "ret \<Rightarrow> fsw \<Rightarrow> fsw" where
  "add_settled res s =
     (case res of
        Ret_path p \<Rightarrow> if p \<noteq> [] then FSWatcher_emitReady s else s
      | Ret_false \<Rightarrow> s
      | Ret_undefined \<Rightarrow> s)"

text \<open>
  \<^verbatim>\<open>watch(['missing', 'fileA'])\<close> on the per-directory backend: both paths enter
  \<^verbatim>\<open>_addToNodeFs\<close> (\<open>two_paths_added\<close>); the stat of \<^verbatim>\<open>missing\<close> fails first with
  \<^verbatim>\<open>ENOENT\<close> (\<open>two_paths_missing\<close>) and \<^verbatim>\<open>add\<close> goes on for it (\<open>two_paths_settled\<close>); then
  the stat of \<^verbatim>\<open>fileA\<close> succeeds, \<^verbatim>\<open>_handleFile\<close> throttles and emits its \<^verbatim>\<open>add\<close>, and
  its \<^verbatim>\<open>_addToNodeFs\<close> ends (\<open>two_paths_done\<close>).
\<close>

definition two_paths_added :: fsw where
  "two_paths_added =
     snd (FSWatcher_add (posix_env 0 no_file) plain_fns
            (JArray [JString ''missing'', JString ''fileA''])
            (new_FSWatcher default_options))"

definition two_paths_missing :: fsw where
  "two_paths_missing =
     snd (addToNodeFs_resume ''missing'' READY_CLOSURE
            (Stat_threw (Error (Some ''ENOENT''))) two_paths_added)"

definition two_paths_settled :: fsw where
  "two_paths_settled = add_settled (Ret_path ''missing'') two_paths_missing"

definition two_paths_done :: fsw where
  "two_paths_done =
     snd (addToNodeFs_resume ''fileA'' READY_CLOSURE Found_handled
            (FSWatcher_emit (posix_env 5 (file_of_size 3 1)) EV_ADD ''fileA''
               (VStats \<lparr>st_size = 3, st_mtimeMs = 1\<rparr>) Undefined Undefined
               (snd (FSWatcher_throttle (Act EV_ADD) ''fileA'' 0 two_paths_settled))))"

text \<open>A closed watcher, and the two watchers with a pending slot, closed.\<close>

definition closed_watcher :: fsw where
  "closed_watcher = FSWatcher_close (new_FSWatcher default_options)"

definition closed_with_unlink :: fsw where
  "closed_with_unlink = FSWatcher_close atomic_b1"

definition closed_with_write :: fsw where
  "closed_with_write = FSWatcher_close grow_g1"


section \<open>Brace expansion\<close>

text \<open>The tree that \<^verbatim>\<open>parse\<close> hands to \<^verbatim>\<open>expand\<close>: a node has a type, a value (the
  empty string when \<^verbatim>\<open>value\<close> is absent), its children when it is a block, the two counters
  of a brace and the flags \<^verbatim>\<open>invalid\<close>, \<^verbatim>\<open>dollar\<close>, \<^verbatim>\<open>open\<close> and \<^verbatim>\<open>close\<close>. The \<^verbatim>\<open>parent\<close>
  link of a node is the path by which the walk came to it.\<close>

datatype ntype =
  T_root | T_brace | T_paren | T_text | T_open | T_close | T_comma | T_dot | T_range
  | T_bos | T_eos

datatype node =
  Node (ntype: ntype) (nvalue: string) (nnodes: "node list option")
       (commas: nat) (ranges: nat) (invalid: bool) (dollar: bool)
       (brace_open: bool) (brace_close: bool)

text \<open>An entry of a queue is a string or an array of entries.\<close>

datatype qv = Str string | Arr "qv list"

text \<open>Numbers are exact: \<^term>\<open>Fin a b\<close> is the fraction of \<open>a\<close> by \<open>b\<close>, with \<open>b\<close> positive,
  beside the two infinities and \<^verbatim>\<open>NaN\<close>; on integers below \<open>2\<^sup>5\<^sup>3\<close> the subtraction and the
  comparison of doubles are the exact ones.\<close>

datatype jsnum = NaN | PInf | NInf | Fin int int

text \<open>What \<^verbatim>\<open>exceedsLimit\<close> can receive: the texts of a range node, and the options
  \<^verbatim>\<open>step\<close> and \<^verbatim>\<open>rangeLimit\<close>, which are absent, \<^verbatim>\<open>false\<close>, a number or a string.\<close>

datatype arg = A_undefined | A_false | A_number int | A_text string

record expand_options =
  rangeLimit :: arg
  step :: arg
  escapeInvalid :: bool

text \<open>The walk is read over three functions it calls and does not define: \<^verbatim>\<open>Number\<close> and
  \<^verbatim>\<open>trim\<close> on strings, and \<^verbatim>\<open>fill\<close> of fill-range, whose answer is the array it returns, or
  \<^term>\<open>None\<close> when it throws.\<close>

record prims =
  Number_of_string :: "string \<Rightarrow> jsnum"
  trim :: "string \<Rightarrow> string"
  fill :: "string list \<Rightarrow> expand_options \<Rightarrow> qv list option"

fun js_sub :: "jsnum \<Rightarrow> jsnum \<Rightarrow> jsnum" where
  "js_sub NaN y = NaN"
| "js_sub x NaN = NaN"
| "js_sub PInf PInf = NaN"
| "js_sub PInf y = PInf"
| "js_sub NInf NInf = NaN"
| "js_sub NInf y = NInf"
| "js_sub (Fin a b) PInf = NInf"
| "js_sub (Fin a b) NInf = PInf"
| "js_sub (Fin a b) (Fin c d) = Fin (a * d - c * b) (b * d)"

fun js_div :: "jsnum \<Rightarrow> jsnum \<Rightarrow> jsnum" where
  "js_div NaN y = NaN"
| "js_div x NaN = NaN"
| "js_div (Fin a b) (Fin c d) =
     (if c = 0 then (if a = 0 then NaN else if a > 0 then PInf else NInf)
      else if c > 0 then Fin (a * d) (b * c)
      else Fin (- (a * d)) (b * (- c)))"
| "js_div (Fin a b) y = Fin 0 1"
| "js_div x (Fin c d) =
     (if c < 0 then (if x = PInf then NInf else PInf) else x)"
| "js_div x y = NaN"

fun js_ge :: "jsnum \<Rightarrow> jsnum \<Rightarrow> bool" where
  "js_ge NaN y = False"
| "js_ge x NaN = False"
| "js_ge PInf y = True"
| "js_ge x NInf = True"
| "js_ge NInf y = False"
| "js_ge x PInf = False"
| "js_ge (Fin a b) (Fin c d) = (a * d \<ge> c * b)"

fun is_integer :: "jsnum \<Rightarrow> bool" where
  "is_integer (Fin a b) = (b dvd a)"
| "is_integer x = False"

fun to_Number :: "prims \<Rightarrow> arg \<Rightarrow> jsnum" where
  "to_Number P A_undefined = NaN"
| "to_Number P A_false = Fin 0 1"
| "to_Number P (A_number n) = Fin n 1"
| "to_Number P (A_text s) = Number_of_string P s"

fun isInteger :: "prims \<Rightarrow> arg \<Rightarrow> bool" where
  "isInteger P (A_number n) = True"
| "isInteger P (A_text s) = (trim P s \<noteq> [] \<and> is_integer (Number_of_string P s))"
| "isInteger P x = False"

definition exceedsLimit :: "prims \<Rightarrow> arg \<Rightarrow> arg \<Rightarrow> arg \<Rightarrow> arg \<Rightarrow> bool" where
  "exceedsLimit P min' max' step0 limit =
     (let step = (if step0 = A_undefined then A_number 1 else step0)
      in if limit = A_false then False
         else if \<not> isInteger P min' \<or> \<not> isInteger P max' then False
         else js_ge (js_div (js_sub (to_Number P max') (to_Number P min')) (to_Number P step))
                (to_Number P limit))"

fun flatten_qv :: "qv list \<Rightarrow> string list" where
  "flatten_qv [] = []"
| "flatten_qv (Str s # r) = s # flatten_qv r"
| "flatten_qv (Arr xs # r) = flatten_qv xs @ flatten_qv r"

text \<open>\<^verbatim>\<open>[].concat(x)\<close>: an array is copied, a string becomes an array of one entry.\<close>

fun concat_array :: "qv \<Rightarrow> qv list" where
  "concat_array (Arr xs) = xs"
| "concat_array (Str s) = [Str s]"

function append' :: "qv \<Rightarrow> qv \<Rightarrow> bool \<Rightarrow> qv list" where
  "append' queue0 stash0 enclose =
     (let queue = concat_array queue0; stash = concat_array stash0
      in if stash = [] then queue
         else if queue = []
         then (if enclose then map (\<lambda>v. Str (''{'' @ v @ ''}'')) (flatten_qv stash) else stash)
         else map Str (flatten_qv (concat (map (\<lambda>item.
                (case item of
                   Arr vals \<Rightarrow> map (\<lambda>v. Arr (append' v (Arr stash) enclose)) vals
                 | Str it \<Rightarrow>
                     map (\<lambda>val.
                            (case val of
                               Arr vs \<Rightarrow> Arr (append' (Str it) (Arr vs) enclose)
                             | Str v \<Rightarrow>
                                 Str (it @ (if enclose then ''{'' @ v @ ''}'' else v))))
                         stash)) queue))))"
  by pat_completeness auto

lemma size_concat_array: "size_list size (concat_array x) \<le> Suc (size x)"
  by (cases x) simp_all

lemma size_member: "x \<in> set xs \<Longrightarrow> Suc (size x) \<le> size_list size xs"
  by (induction xs) auto

termination append'
proof (relation "measures [\<lambda>(q, s, e). size_list size (concat_array s),
                           \<lambda>(q, s, e). size_list size (concat_array q)]", goal_cases)
  case 1
  then show ?case by simp
next
  case (2 queue0 stash0 enclose queue stash item it val vs)
  have "Suc (size (Arr vs)) \<le> size_list size (concat_array stash0)"
    using 2 size_member [of "Arr vs" "concat_array stash0"] by simp
  then show ?case by simp
next
  case (3 queue0 stash0 enclose queue stash item vals v)
  have "Suc (size v) \<le> size_list size vals" using 3 by (simp add: size_member)
  moreover have "Suc (size (Arr vals)) \<le> size_list size (concat_array queue0)"
    using 3 size_member [of "Arr vals" "concat_array queue0"] by simp
  moreover have "size_list size (concat_array v) \<le> Suc (size v)" by (rule size_concat_array)
  ultimately show ?case using 3 by simp
qed

declare append'.simps [simp del]

fun isInvalidBrace :: "node option \<Rightarrow> bool" where
  "isInvalidBrace None = False"
| "isInvalidBrace (Some n) =
     (if ntype n \<noteq> T_brace then False
      else if invalid n \<or> dollar n then True
      else if commas n + ranges n = 0 then True
      else if \<not> brace_open n \<or> \<not> brace_close n then True
      else False)"

definition isOpenOrClose :: "node \<Rightarrow> bool" where
  "isOpenOrClose n =
     (ntype n = T_open \<or> ntype n = T_close \<or> brace_open n \<or> brace_close n)"

fun stringify :: "bool \<Rightarrow> node option \<Rightarrow> node \<Rightarrow> string" where
  "stringify esc parent (Node t v ns cm rg iv dl bo bc) =
     (let node = Node t v ns cm rg iv dl bo bc;
          blockIsInvalid = (esc \<and> isInvalidBrace parent);
          nodeIsInvalid = (esc \<and> iv)
      in if v \<noteq> []
         then (if (blockIsInvalid \<or> nodeIsInvalid) \<and> isOpenOrClose node then CHR 0x5C # v
               else v)
         else (case ns of
                 None \<Rightarrow> []
               | Some children \<Rightarrow> concat (map (stringify esc (Some node)) children)))"

definition encloseBrace :: "node \<Rightarrow> bool" where
  "encloseBrace n = (ntype n = T_brace \<and> commas n + ranges n = 0)"

definition reduce :: "node list \<Rightarrow> string list" where
  "reduce ns = map nvalue (filter (\<lambda>c. ntype c = T_text) ns)"

text \<open>\<^verbatim>\<open>pop\<close> of an empty array is \<^verbatim>\<open>undefined\<close>, which \<^verbatim>\<open>append\<close> replaces by its
  default, the empty string. \<^verbatim>\<open>q.push(append(q.pop(), stash, enclose))\<close> throws a
  \<^verbatim>\<open>TypeError\<close> when the parent has no queue.\<close>

definition pop :: "qv list \<Rightarrow> qv" where
  "pop xs = (if xs = [] then Str [] else last xs)"

definition pop_append_push :: "qv list option \<Rightarrow> qv \<Rightarrow> bool \<Rightarrow> exn + qv list" where
  "pop_append_push q stash enclose =
     (case q of
        None \<Rightarrow> Inl TypeError
      | Some xs \<Rightarrow> Inr (butlast xs @ [Arr (append' (pop xs) stash enclose)]))"

definition nth_arg :: "arg list \<Rightarrow> nat \<Rightarrow> arg" where
  "nth_arg xs i = (if i < length xs then xs ! i else A_undefined)"

text \<open>The call \<^verbatim>\<open>utils.exceedsLimit(...args, options.step, rangeLimit)\<close> of \<^verbatim>\<open>walk\<close>:
  the texts of the range node are spread in front of the two options.\<close>

definition range_exceedsLimit :: "prims \<Rightarrow> expand_options \<Rightarrow> node list \<Rightarrow> bool" where
  "range_exceedsLimit P os children =
     (let xs = map A_text (reduce children) @
               [step os,
                (if rangeLimit os = A_undefined then A_number 1000 else rangeLimit os)]
      in exceedsLimit P (nth_arg xs 0) (nth_arg xs 1) (nth_arg xs 2) (nth_arg xs 3))"

text \<open>\<^verbatim>\<open>walk\<close> returns the queue of its parent as it leaves it, and the queue it
  returns. The loop over the children is \<^term>\<open>walk_nodes\<close>; \<open>aliased\<close> says that the queue of the
  loop is the queue of the parent, which is so for a node that is neither a brace nor the root
  and has a parent.\<close>

fun walk ::
  "prims \<Rightarrow> expand_options \<Rightarrow> node \<Rightarrow> qv list option
     \<Rightarrow> exn + qv list option \<times> qv list option"
and walk_nodes ::
  "prims \<Rightarrow> expand_options \<Rightarrow> bool \<Rightarrow> bool \<Rightarrow> bool \<Rightarrow> nat \<Rightarrow> node list
     \<Rightarrow> qv list option \<times> qv list \<Rightarrow> exn + qv list option \<times> qv list" where
  "walk P os (Node t v ns cm rg iv dl bo bc) q =
     (let node = Node t v ns cm rg iv dl bo bc
      in if iv \<or> dl
         then (case pop_append_push q (Str (stringify (escapeInvalid os) None node)) False of
                 Inl e \<Rightarrow> Inl e
               | Inr q' \<Rightarrow> Inr (Some q', None))
         else
           (case ns of
              None \<Rightarrow> Inl TypeError
            | Some children \<Rightarrow>
                if t = T_brace \<and> length children = 2
                then (case pop_append_push q (Arr [Str ''{}'']) False of
                        Inl e \<Rightarrow> Inl e
                      | Inr q' \<Rightarrow> Inr (Some q', None))
                else if rg > 0
                then
                  (if range_exceedsLimit P os children then Inl RangeError
                   else
                     (case fill P (reduce children) os of
                        None \<Rightarrow> Inl TypeError
                      | Some rng \<Rightarrow>
                          (case pop_append_push q
                                  (if rng = []
                                   then Str (stringify (escapeInvalid os) None node)
                                   else Arr rng) False of
                             Inl e \<Rightarrow> Inl e
                           | Inr q' \<Rightarrow> Inr (Some q', None))))
                else
                  (let aliased = (t \<noteq> T_brace \<and> t \<noteq> T_root \<and> q \<noteq> None);
                       queue = (case q of
                                  None \<Rightarrow> []
                                | Some xs \<Rightarrow> if aliased then xs else [])
                   in case walk_nodes P os (t = T_brace) aliased (encloseBrace node) 0 children
                             (q, queue) of
                        Inl e \<Rightarrow> Inl e
                      | Inr (q', queue') \<Rightarrow> Inr (q', Some queue'))))"
| "walk_nodes P os isBrace aliased enclose i [] (q, queue) = Inr (q, queue)"
| "walk_nodes P os isBrace aliased enclose i (child # rest) (q, queue) =
     (if ntype child = T_comma \<and> isBrace
      then
        (let queue' = queue @ (if i = 1 then [Str []] else []) @ [Str []]
         in walk_nodes P os isBrace aliased enclose (i + 1) rest
              (if aliased then Some queue' else q, queue'))
      else if ntype child = T_close
      then
        (if aliased
         then
           (let queue' = butlast queue @ [Arr (append' (pop queue) (Arr (butlast queue)) enclose)]
            in walk_nodes P os isBrace aliased enclose (i + 1) rest (Some queue', queue'))
         else
           (case pop_append_push q (Arr queue) enclose of
              Inl e \<Rightarrow> Inl e
            | Inr q' \<Rightarrow> walk_nodes P os isBrace aliased enclose (i + 1) rest (Some q', queue)))
      else if nvalue child \<noteq> [] \<and> ntype child \<noteq> T_open
      then
        (let queue' = butlast queue @ [Arr (append' (pop queue) (Str (nvalue child)) False)]
         in walk_nodes P os isBrace aliased enclose (i + 1) rest
              (if aliased then Some queue' else q, queue'))
      else if nnodes child \<noteq> None
      then
        (case walk P os child (Some queue) of
           Inl e \<Rightarrow> Inl e
         | Inr (q', r) \<Rightarrow>
             (let queue' = (case q' of None \<Rightarrow> queue | Some xs \<Rightarrow> xs)
              in walk_nodes P os isBrace aliased enclose (i + 1) rest
                   (if aliased then Some queue' else q, queue')))
      else walk_nodes P os isBrace aliased enclose (i + 1) rest (q, queue))"

definition expand :: "prims \<Rightarrow> expand_options \<Rightarrow> node \<Rightarrow> exn + string list" where
  "expand P os ast =
     (case walk P os ast None of
        Inl e \<Rightarrow> Inl e
      | Inr (q, r) \<Rightarrow> Inr (case r of None \<Rightarrow> [] | Some queue \<Rightarrow> flatten_qv queue))"

text \<open>The nodes of a tree, and the nodes at which the test of the range limit holds.\<close>

fun nodes_of :: "node \<Rightarrow> node list" where
  "nodes_of (Node t v ns cm rg iv dl bo bc) =
     Node t v ns cm rg iv dl bo bc #
     (case ns of None \<Rightarrow> [] | Some children \<Rightarrow> concat (map nodes_of children))"

definition limit_hit :: "prims \<Rightarrow> expand_options \<Rightarrow> node \<Rightarrow> bool" where
  "limit_hit P os n =
     (case nnodes n of
        None \<Rightarrow> False
      | Some children \<Rightarrow> ranges n > 0 \<and> range_exceedsLimit P os children)"

subsection \<open>Two patterns\<close>

text \<open>\<^verbatim>\<open>Number\<close> and \<^verbatim>\<open>trim\<close> on the strings of the patterns below: a run of decimal digits
  is its value, the empty string is 0, and \<^verbatim>\<open>Number\<close> of a string with a letter is
  \<^verbatim>\<open>NaN\<close>; \<^verbatim>\<open>trim\<close> removes the blanks at both ends. fill-range is not entered on these
  patterns. The trees are those \<^verbatim>\<open>parse\<close> builds for \<^verbatim>\<open>{a,b,c}\<close>, \<^verbatim>\<open>{a,b,c}{a,b,c}\<close> and
  \<^verbatim>\<open>{1..2000}\<close>.\<close>

definition decimal_Number :: "string \<Rightarrow> jsnum" where
  "decimal_Number s =
     (if s = [] then Fin 0 1
      else if list_all (\<lambda>c. c \<in> set ''0123456789'') s
      then Fin (int (foldl (\<lambda>n c. 10 * n + (of_char c - 48)) 0 s)) 1
      else NaN)"

definition trim_blanks :: "string \<Rightarrow> string" where
  "trim_blanks s =
     rev (dropWhile (\<lambda>c. c = CHR '' '') (rev (dropWhile (\<lambda>c. c = CHR '' '') s)))"

definition decimal_prims :: prims where
  "decimal_prims =
     \<lparr>Number_of_string = decimal_Number, trim = trim_blanks, fill = (\<lambda>args os. None)\<rparr>"

definition leaf :: "ntype \<Rightarrow> string \<Rightarrow> node" where
  "leaf t v = Node t v None 0 0 False False False False"

definition root_of :: "node list \<Rightarrow> node" where
  "root_of ns = Node T_root [] (Some ([leaf T_bos []] @ ns @ [leaf T_eos []])) 0 0 False False False False"

definition brace_a_b_c :: node where
  "brace_a_b_c =
     Node T_brace []
       (Some [leaf T_open ''{'', leaf T_text ''a'', leaf T_comma '','', leaf T_text ''b'',
              leaf T_comma '','', leaf T_text ''c'', leaf T_close ''}''])
       2 0 False False True True"

definition limit_options :: "arg \<Rightarrow> expand_options" where
  "limit_options l = \<lparr>rangeLimit = l, step = A_undefined, escapeInvalid = False\<rparr>"

definition children_1_2000 :: "node list" where
  "children_1_2000 =
     [leaf T_open ''{'', leaf T_text ''1'', leaf T_range ''..'', leaf T_text ''2000'',
      leaf T_close ''}'']"

definition brace_1_2000 :: node where
  "brace_1_2000 = Node T_brace [] (Some children_1_2000) 0 1 False False True True"

section \<open>Basic facts about the log\<close>

lemma emitted_emit [simp]: "emitted (emit c s) = emitted s @ [c]"
  by (simp add: emit_def)

lemma emitted_emitWithAll:
  "emitted (emitWithAll event args s) =
     emitted s @ [args] @ (if event = EV_ERROR then [] else [VEvent EV_ALL # args])"
  by (simp add: emitWithAll_def Let_def)

lemma emitted_setTimeout [simp]: "emitted (snd (setTimeout cb d s)) = emitted s"
  by (simp add: setTimeout_def)

lemma emitted_clearTimeout [simp]: "emitted (clearTimeout t s) = emitted s"
  by (simp add: clearTimeout_def)

lemma emitted_throttle [simp]: "emitted (snd (FSWatcher_throttle a p t s)) = emitted s"
  by (simp add: FSWatcher_throttle_def setTimeout_def Let_def split: option.splits prod.splits)

lemma emitted_awaitWriteFinish [simp]:
  "emitted (FSWatcher_awaitWriteFinish E p th ev args s) = emitted s"
  by (simp add: FSWatcher_awaitWriteFinish_def setTimeout_def Let_def
      split: option.splits prod.splits)

section \<open>The branches of the emission pipeline\<close>


lemma emit_pending:
  assumes "\<not> closed s" and "awaitWriteFinish (opts s) = Some a"
    and "map_of (pendingWrites s) (emit_path E (opts s) path) = Some pw"
  shows "FSWatcher_emit E event path v1 v2 v3 s =
     s\<lparr>pendingWrites :=
         AList.update (emit_path E (opts s) path) (pw\<lparr>lastChange := now E\<rparr>) (pendingWrites s)\<rparr>"
  using assms by (simp add: FSWatcher_emit_def Let_def)


lemma emit_collapse:
  assumes "\<not> closed s"
    and "awaitWriteFinish (opts s) = None \<or>
         map_of (pendingWrites s) (emit_path E (opts s) path) = None"
    and "truthy_atomic (atomic (opts s))"
    and "map_of (pendingUnlinks s) (emit_path E (opts s) path) = Some u"
  shows "FSWatcher_emit E EV_ADD path v1 v2 v3 s =
     (case (if readyEmitted s then awaitWriteFinish (opts s) else None) of
        Some a \<Rightarrow>
          FSWatcher_awaitWriteFinish E (emit_path E (opts s) path) (stabilityThreshold a)
            EV_CHANGE
            (array_set (emit_args EV_ADD (emit_path E (opts s) path) v1 v2 v3) 0
               (VEvent EV_CHANGE))
            (s\<lparr>pendingUnlinks := AList.delete (emit_path E (opts s) path) (pendingUnlinks s)\<rparr>)
      | None \<Rightarrow>
          emit_deliver E EV_CHANGE (emit_path E (opts s) path)
            (array_set (emit_args EV_ADD (emit_path E (opts s) path) v1 v2 v3) 0
               (VEvent EV_CHANGE)) v1
            (s\<lparr>pendingUnlinks := AList.delete (emit_path E (opts s) path) (pendingUnlinks s)\<rparr>))"
proof -
  have n: "(if awaitWriteFinish (opts s) = None then None
            else map_of (pendingWrites s) (emit_path E (opts s) path)) = None"
    using assms(2) by auto
  show ?thesis using assms(1,3,4) by (simp add: FSWatcher_emit_def Let_def n)
qed

lemma emit_plain:
  assumes "\<not> closed s"
    and "awaitWriteFinish (opts s) = None \<or>
         map_of (pendingWrites s) (emit_path E (opts s) path) = None"
    and "\<not> (truthy_atomic (atomic (opts s)) \<and> event = EV_UNLINK)"
    and "\<not> (truthy_atomic (atomic (opts s)) \<and> event = EV_ADD \<and>
            map_of (pendingUnlinks s) (emit_path E (opts s) path) \<noteq> None)"
  shows "FSWatcher_emit E event path v1 v2 v3 s =
     (case (if (event = EV_ADD \<or> event = EV_CHANGE) \<and> readyEmitted s
            then awaitWriteFinish (opts s) else None) of
        Some a \<Rightarrow>
          FSWatcher_awaitWriteFinish E (emit_path E (opts s) path) (stabilityThreshold a) event
            (emit_args event (emit_path E (opts s) path) v1 v2 v3) s
      | None \<Rightarrow>
          emit_deliver E event (emit_path E (opts s) path)
            (emit_args event (emit_path E (opts s) path) v1 v2 v3) v1 s)"
proof -
  have n: "(if awaitWriteFinish (opts s) = None then None
            else map_of (pendingWrites s) (emit_path E (opts s) path)) = None"
    using assms(2) by auto
  have c: "(truthy_atomic (atomic (opts s)) \<and> event = EV_ADD \<and>
            map_of (pendingUnlinks s) (emit_path E (opts s) path) \<noteq> None) = False"
    using assms(4) by simp
  have u: "(truthy_atomic (atomic (opts s)) \<and> event = EV_UNLINK) = False"
    using assms(3) by simp
  show ?thesis using assms(1)
    unfolding FSWatcher_emit_def Let_def n c u by simp
qed


section \<open>The shape of what each pipeline step emits\<close>





lemma drain_fold:
  "emitted (fold (\<lambda>(pth, entry) s'.
             (emit (VEvent EV_ALL # entry) (emit entry s'))
               \<lparr>pendingUnlinks := AList.delete pth (pendingUnlinks s')\<rparr>) xs s) =
   emitted s @ concat (map (\<lambda>(pth, entry). [entry, VEvent EV_ALL # entry]) xs)"
  by (induction xs arbitrary: s) (auto simp: emit_def)

lemma drain_shape:
  "emitted (drain_pendingUnlinks s) =
   emitted s @ concat (map (\<lambda>(pth, entry). [entry, VEvent EV_ALL # entry]) (pendingUnlinks s))"
  unfolding drain_pendingUnlinks_def by (rule drain_fold)

lemma array_set_0: "array_set a 0 v = v # tl a"
  by (cases a) (simp_all add: array_set_def)



section \<open>Throttle table: the two outcomes\<close>

lemma throttle_suppressed:
  assumes "map_of (throttled s) k = Some r" and "map_of (actionMaps s r) p = Some t"
  shows "FSWatcher_throttle k p w s =
           (None, s\<lparr>actionMaps := (actionMaps s)
                     (r := AList.update p (t\<lparr>thr_count := thr_count t + 1\<rparr>) (actionMaps s r))\<rparr>)"
  using assms by (simp add: FSWatcher_throttle_def Let_def)

lemma throttle_fresh_old_map:
  assumes "map_of (throttled s) k = Some r" and "map_of (actionMaps s r) p = None"
  shows "FSWatcher_throttle k p w s =
           (Some (r, p, nextTimer s),
            s\<lparr>timers := timers s @ [(nextTimer s, w, CB_clear r p (nextTimer s))],
              nextTimer := nextTimer s + 1,
              actionMaps := (actionMaps s)
                (r := AList.update p \<lparr>thr_timeoutObject = nextTimer s, thr_count = 0\<rparr>
                        (actionMaps s r))\<rparr>)"
  using assms by (simp add: FSWatcher_throttle_def Let_def setTimeout_def)

lemma throttle_fresh_new_map:
  assumes "map_of (throttled s) k = None"
  shows "FSWatcher_throttle k p w s =
           (Some (nextMap s, p, nextTimer s),
            s\<lparr>throttled := throttled s @ [(k, nextMap s)],
              nextMap := nextMap s + 1,
              timers := timers s @ [(nextTimer s, w, CB_clear (nextMap s) p (nextTimer s))],
              nextTimer := nextTimer s + 1,
              actionMaps := (actionMaps s)
                (nextMap s := [(p, \<lparr>thr_timeoutObject = nextTimer s, thr_count = 0\<rparr>)])\<rparr>)"
  using assms by (simp add: FSWatcher_throttle_def Let_def setTimeout_def)

lemma map_of_snoc_fresh: "map_of xs k = None \<Longrightarrow> map_of (xs @ [(k, v)]) k = Some v"
  by (simp add: map_add_def)

lemma throttle_fresh:
  assumes free: "throttle_slot s k p = None"
    and fresh: "map_of (timers s) (nextTimer s) = None"
  shows "\<exists>ref. fst (FSWatcher_throttle k p w s) = Some (ref, p, nextTimer s) \<and>
           throttle_slot (snd (FSWatcher_throttle k p w s)) k p =
             Some \<lparr>thr_timeoutObject = nextTimer s, thr_count = 0\<rparr> \<and>
           map_of (timers (snd (FSWatcher_throttle k p w s))) (nextTimer s) =
             Some (w, CB_clear ref p (nextTimer s)) \<and>
           throttle_slot (fire E (nextTimer s) (snd (FSWatcher_throttle k p w s))) k p = None"
proof (cases "map_of (throttled s) k")
  case None
  show ?thesis
    unfolding throttle_fresh_new_map [OF None]
    using None fresh
    by (simp add: throttle_slot_def map_add_def fire_def run_callback_def throttle_clear_def
        Let_def clearTimeout_def)
next
  case (Some r)
  then have m: "map_of (actionMaps s r) p = None"
    using free by (simp add: throttle_slot_def)
  show ?thesis
    unfolding throttle_fresh_old_map [OF Some m]
    using Some fresh
    by (simp add: throttle_slot_def map_add_def fire_def run_callback_def throttle_clear_def
        Let_def clearTimeout_def update_conv' delete_conv')
qed

lemma throttle_held:
  assumes "throttle_slot s k p = Some t"
  shows "fst (FSWatcher_throttle k p w s) = None \<and>
         throttle_slot (snd (FSWatcher_throttle k p w s)) k p =
           Some (t\<lparr>thr_count := thr_count t + 1\<rparr>) \<and>
         timers (snd (FSWatcher_throttle k p w s)) = timers s \<and>
         emitted (snd (FSWatcher_throttle k p w s)) = emitted s \<and>
         pendingWrites (snd (FSWatcher_throttle k p w s)) = pendingWrites s \<and>
         pendingUnlinks (snd (FSWatcher_throttle k p w s)) = pendingUnlinks s"
proof -
  obtain r where r: "map_of (throttled s) k = Some r" "map_of (actionMaps s r) p = Some t"
    using assms by (auto simp: throttle_slot_def split: option.splits)
  show ?thesis
    unfolding throttle_suppressed [OF r]
    using r by (simp add: throttle_slot_def update_conv')
qed

lemma emit_deliver_throttled:
  assumes "throttle_slot s (Act EV_CHANGE) p = Some t"
  shows "emit_deliver E EV_CHANGE p args v1 s = snd (FSWatcher_throttle (Act EV_CHANGE) p 50 s)"
proof -
  have "fst (FSWatcher_throttle (Act EV_CHANGE) p 50 s) = None"
    using throttle_held [OF assms] by simp
  then show ?thesis
    by (cases "FSWatcher_throttle (Act EV_CHANGE) p 50 s") (simp add: emit_deliver_def)
qed

section \<open>The pending unlinks and the delivery step\<close>

lemma array_set_emit_args:
  "array_set (emit_args e p v1 v2 v3) 0 (VEvent e') = emit_args e' p v1 v2 v3"
  by (simp add: emit_args_def array_set_def)

lemma pendingUnlinks_throttle [simp]:
  "pendingUnlinks (snd (FSWatcher_throttle a p t s)) = pendingUnlinks s"
  by (simp add: FSWatcher_throttle_def setTimeout_def Let_def split: option.splits prod.splits)

lemma pendingUnlinks_emitWithAll [simp]:
  "pendingUnlinks (emitWithAll e a s) = pendingUnlinks s"
  by (simp add: emitWithAll_def emit_def Let_def)

lemma pendingUnlinks_awaitWriteFinish [simp]:
  "pendingUnlinks (FSWatcher_awaitWriteFinish E p th ev args s) = pendingUnlinks s"
  by (simp add: FSWatcher_awaitWriteFinish_def setTimeout_def Let_def
      split: option.splits prod.splits)

lemma pendingUnlinks_emit_deliver [simp]:
  "pendingUnlinks (emit_deliver E ev p args v1 s) = pendingUnlinks s"
proof (cases "FSWatcher_throttle (Act EV_CHANGE) p 50 s")
  case (Pair t s')
  have e: "pendingUnlinks s' = pendingUnlinks s"
    using pendingUnlinks_throttle [of "Act EV_CHANGE" p 50 s] Pair by simp
  show ?thesis
    unfolding emit_deliver_def Let_def
    by (simp add: Pair e split: sum.splits)
qed

lemma emit_deliver_change_shape:
  "emitted (emit_deliver E EV_CHANGE p (emit_args EV_CHANGE p v1 v2 v3) v1 s) = emitted s \<or>
   (\<exists>rest. emitted (emit_deliver E EV_CHANGE p (emit_args EV_CHANGE p v1 v2 v3) v1 s) =
      emitted s @ [VEvent EV_CHANGE # VPath p # rest,
                   VEvent EV_ALL # VEvent EV_CHANGE # VPath p # rest])"
proof (cases "FSWatcher_throttle (Act EV_CHANGE) p 50 s")
  case (Pair t s')
  have e: "emitted s' = emitted s"
    using emitted_throttle [of "Act EV_CHANGE" p 50 s] Pair by simp
  show ?thesis
    unfolding emit_deliver_def Let_def
    by (simp add: Pair e emitted_emitWithAll emit_args_def split: sum.splits)
qed

lemma emit_deliver_change_free:
  assumes free: "throttle_slot s (Act EV_CHANGE) p = None"
    and stat: "alwaysStat (opts s) \<longrightarrow> v1 \<noteq> Undefined"
  shows "emitted (emit_deliver E EV_CHANGE p args v1 s) =
           emitted s @ [args, VEvent EV_ALL # args]"
proof -
  have t: "fst (FSWatcher_throttle (Act EV_CHANGE) p 50 s) \<noteq> None"
    using free
    by (auto simp: throttle_slot_def FSWatcher_throttle_def setTimeout_def Let_def
        split: option.splits)
  have o: "opts (snd (FSWatcher_throttle (Act EV_CHANGE) p 50 s)) = opts s"
    by (simp add: FSWatcher_throttle_def setTimeout_def Let_def split: option.splits prod.splits)
  show ?thesis
  proof (cases "FSWatcher_throttle (Act EV_CHANGE) p 50 s")
    case (Pair r s')
    have e: "emitted s' = emitted s"
      using emitted_throttle [of "Act EV_CHANGE" p 50 s] Pair by simp
    show ?thesis
      using t stat unfolding emit_deliver_def Let_def
      by (auto simp: Pair e emitted_emitWithAll)
  qed
qed

section \<open>Write-settle: the new slot and the poll tick\<close>

lemma awaitWriteFinish_new_slot:
  assumes "awaitWriteFinish (opts s) = Some a" and "map_of (pendingWrites s) p = None"
  shows "FSWatcher_awaitWriteFinish E p th ev args s =
           s\<lparr>timers := timers s @
                 [(nextTimer s, pollInterval a,
                   CB_poll \<lparr>pc_path = p,
                            pc_fullPath =
                              (case cwd (opts s) of
                                 None \<Rightarrow> p
                               | Some c \<Rightarrow>
                                   if c \<noteq> [] \<and> \<not> sysPath_isAbsolute E p
                                   then sysPath_join E c p else p),
                            pc_threshold = th, pc_event = ev, pc_args = args\<rparr> None)],
             nextTimer := nextTimer s + 1,
             pendingWrites := AList.update p
               \<lparr>lastChange = now E, cancelWait_event = ev, timeoutHandle = nextTimer s\<rparr>
               (pendingWrites s)\<rparr>"
  using assms by (simp add: FSWatcher_awaitWriteFinish_def Let_def setTimeout_def)

lemma emit_withheld:
  assumes awf: "awaitWriteFinish (opts s) = Some a" and op: "\<not> closed s"
    and rdy: "readyEmitted s" and ev: "event = EV_ADD \<or> event = EV_CHANGE"
    and free: "map_of (pendingWrites s) (emit_path E (opts s) path) = None"
  shows "emitted (FSWatcher_emit E event path v1 v2 v3 s) = emitted s \<and>
         (\<exists>c. map_of (pendingWrites (FSWatcher_emit E event path v1 v2 v3 s))
                 (emit_path E (opts s) path) =
               Some \<lparr>lastChange = now E, cancelWait_event = pc_event c,
                     timeoutHandle = nextTimer s\<rparr> \<and>
              timers (FSWatcher_emit E event path v1 v2 v3 s) =
                timers s @ [(nextTimer s, pollInterval a, CB_poll c None)] \<and>
              pc_path c = emit_path E (opts s) path \<and>
              pc_threshold c = stabilityThreshold a \<and>
              pc_args c = emit_args (pc_event c) (emit_path E (opts s) path) v1 v2 v3 \<and>
              (pc_event c = event \<or> (event = EV_ADD \<and> pc_event c = EV_CHANGE)))"
proof -
  let ?p = "emit_path E (opts s) path"
  let ?s' = "FSWatcher_emit E event path v1 v2 v3 s"
  have nu: "\<not> (truthy_atomic (atomic (opts s)) \<and> event = EV_UNLINK)"
    using ev by auto
  have free': "awaitWriteFinish (opts s) = None \<or> map_of (pendingWrites s) ?p = None"
    using free by simp
  show ?thesis
  proof (cases "truthy_atomic (atomic (opts s)) \<and> event = EV_ADD \<and>
                map_of (pendingUnlinks s) ?p \<noteq> None")
    case True
    then obtain u where u: "map_of (pendingUnlinks s) ?p = Some u" by auto
    let ?s1 = "s\<lparr>pendingUnlinks := AList.delete ?p (pendingUnlinks s)\<rparr>"
    have e: "event = EV_ADD" using True by simp
    have ta: "truthy_atomic (atomic (opts s))" using True by simp
    have eq: "?s' = FSWatcher_awaitWriteFinish E ?p (stabilityThreshold a) EV_CHANGE
                      (emit_args EV_CHANGE ?p v1 v2 v3) ?s1"
      unfolding e emit_collapse [OF op free' ta u, of v1 v2 v3] array_set_emit_args
      using rdy awf by simp
    have a1: "awaitWriteFinish (opts ?s1) = Some a" using awf by simp
    have f1: "map_of (pendingWrites ?s1) ?p = None" using free by simp
    show ?thesis
      unfolding eq awaitWriteFinish_new_slot [OF a1 f1]
      using e by (simp add: update_conv')
  next
    case False
    have eq: "?s' = FSWatcher_awaitWriteFinish E ?p (stabilityThreshold a) event
                      (emit_args event ?p v1 v2 v3) s"
      unfolding emit_plain [OF op free' nu False, of v1 v2 v3]
      using ev rdy awf by simp
    show ?thesis
      unfolding eq awaitWriteFinish_new_slot [OF awf free]
      by (simp add: update_conv')
  qed
qed

lemma poll_tick:
  assumes slot: "map_of (pendingWrites s) (pc_path c) = Some pw"
    and st: "fs_stat E (pc_fullPath c) = Inr cur"
    and awf: "awaitWriteFinish (opts s) = Some a"
  shows "poll E c prev s =
     (let L = (case prev of
                 None \<Rightarrow> lastChange pw
               | Some pr \<Rightarrow> if st_size cur \<noteq> st_size pr then now E else lastChange pw)
      in if now E - L \<ge> pc_threshold c
         then awfEmit c None (Some cur)
                (s\<lparr>pendingWrites := AList.delete (pc_path c) (pendingWrites s)\<rparr>)
         else s\<lparr>timers := timers s @ [(nextTimer s, pollInterval a, CB_poll c (Some cur))],
                nextTimer := nextTimer s + 1,
                pendingWrites := AList.update (pc_path c)
                  (pw\<lparr>lastChange := L, timeoutHandle := nextTimer s\<rparr>) (pendingWrites s)\<rparr>)"
  using assms
  by (cases prev) (auto simp: poll_def Let_def setTimeout_def)

section \<open>A change through the pipeline: the throttle step and the write-settle route\<close>

lemma throttle_frame:
  "closed (snd (FSWatcher_throttle k p w s)) = closed s \<and>
   opts (snd (FSWatcher_throttle k p w s)) = opts s \<and>
   readyEmitted (snd (FSWatcher_throttle k p w s)) = readyEmitted s \<and>
   pendingWrites (snd (FSWatcher_throttle k p w s)) = pendingWrites s"
  by (simp add: FSWatcher_throttle_def setTimeout_def Let_def split: option.splits prod.splits)

lemma emitWithAll_frame: "\<exists>es. emitWithAll e a s = s\<lparr>emitted := es\<rparr>"
  by (auto simp: emitWithAll_def emit_def Let_def)

lemma emit_deliver_change_frame:
  "\<exists>es. emit_deliver E EV_CHANGE p args v1 s =
          (snd (FSWatcher_throttle (Act EV_CHANGE) p 50 s))\<lparr>emitted := es\<rparr>"
proof (cases "FSWatcher_throttle (Act EV_CHANGE) p 50 s")
  case (Pair r s2)
  have id: "\<exists>es. s2 = s2\<lparr>emitted := es\<rparr>"
    by (rule exI [of _ "emitted s2"]) simp
  have e1: "\<exists>es. emitWithAll EV_CHANGE args s2 = s2\<lparr>emitted := es\<rparr>"
    by (rule emitWithAll_frame)
  have e2: "\<And>st. \<exists>es. emitWithAll EV_CHANGE (args @ [VStats st]) s2 = s2\<lparr>emitted := es\<rparr>"
    by (rule emitWithAll_frame)
  show ?thesis
    unfolding emit_deliver_def Let_def
    using id e1 e2
    by (simp add: Pair split: sum.splits)
qed

lemma fire_clear_emitted:
  assumes "map_of (timers s) n = Some (w, CB_clear r p t)"
  shows "throttle_slot (fire E n (s\<lparr>emitted := es\<rparr>)) k q = throttle_slot (fire E n s) k q"
  using assms
  by (simp add: fire_def run_callback_def throttle_clear_def Let_def clearTimeout_def
      throttle_slot_def split: option.splits)

lemma emit_change_reaches_throttle:
  assumes "\<not> closed s"
    and "awaitWriteFinish (opts s) = None \<or>
         (\<not> readyEmitted s \<and> map_of (pendingWrites s) (emit_path E (opts s) path) = None)"
  shows "FSWatcher_emit E EV_CHANGE path v1 v2 v3 s =
           emit_deliver E EV_CHANGE (emit_path E (opts s) path)
             (emit_args EV_CHANGE (emit_path E (opts s) path) v1 v2 v3) v1 s"
proof -
  have route: "(if (EV_CHANGE = EV_ADD \<or> EV_CHANGE = EV_CHANGE) \<and> readyEmitted s
                then awaitWriteFinish (opts s) else None) = None"
    using assms(2) by auto
  show ?thesis
    using assms by (subst emit_plain) (auto simp: route)
qed

lemma throttle_slot_emitted:
  "throttle_slot (s\<lparr>emitted := es\<rparr>) k p = throttle_slot s k p"
  by (simp add: throttle_slot_def cong: option.case_cong)

lemma emit_change_dropped:
  assumes op: "\<not> closed s"
    and rt: "awaitWriteFinish (opts s) = None \<or>
         (\<not> readyEmitted s \<and> map_of (pendingWrites s) (emit_path E (opts s) path) = None)"
    and slot: "throttle_slot s (Act EV_CHANGE) (emit_path E (opts s) path) = Some t"
  shows "emitted (FSWatcher_emit E EV_CHANGE path v1 v2 v3 s) = emitted s \<and>
         timers (FSWatcher_emit E EV_CHANGE path v1 v2 v3 s) = timers s \<and>
         pendingWrites (FSWatcher_emit E EV_CHANGE path v1 v2 v3 s) = pendingWrites s \<and>
         throttle_slot (FSWatcher_emit E EV_CHANGE path v1 v2 v3 s) (Act EV_CHANGE)
             (emit_path E (opts s) path) =
           Some (t\<lparr>thr_count := thr_count t + 1\<rparr>)"
  unfolding emit_change_reaches_throttle [OF op rt] emit_deliver_throttled [OF slot]
  using throttle_held [OF slot, of 50] by simp

lemma emit_change_reserves:
  assumes op: "\<not> closed s"
    and rt: "awaitWriteFinish (opts s) = None \<or>
         (\<not> readyEmitted s \<and> map_of (pendingWrites s) (emit_path E (opts s) path) = None)"
    and free: "throttle_slot s (Act EV_CHANGE) (emit_path E (opts s) path) = None"
    and fresh: "map_of (timers s) (nextTimer s) = None"
  shows "throttle_slot (FSWatcher_emit E EV_CHANGE path v1 v2 v3 s) (Act EV_CHANGE)
             (emit_path E (opts s) path) =
           Some \<lparr>thr_timeoutObject = nextTimer s, thr_count = 0\<rparr> \<and>
         (\<exists>ref. map_of (timers (FSWatcher_emit E EV_CHANGE path v1 v2 v3 s)) (nextTimer s) =
                  Some (50, CB_clear ref (emit_path E (opts s) path) (nextTimer s))) \<and>
         throttle_slot (fire E' (nextTimer s) (FSWatcher_emit E EV_CHANGE path v1 v2 v3 s))
             (Act EV_CHANGE) (emit_path E (opts s) path) = None \<and>
         \<not> closed (FSWatcher_emit E EV_CHANGE path v1 v2 v3 s) \<and>
         opts (FSWatcher_emit E EV_CHANGE path v1 v2 v3 s) = opts s \<and>
         readyEmitted (FSWatcher_emit E EV_CHANGE path v1 v2 v3 s) = readyEmitted s \<and>
         pendingWrites (FSWatcher_emit E EV_CHANGE path v1 v2 v3 s) = pendingWrites s"
proof -
  let ?p = "emit_path E (opts s) path"
  let ?s2 = "snd (FSWatcher_throttle (Act EV_CHANGE) ?p 50 s)"
  obtain es where eq: "FSWatcher_emit E EV_CHANGE path v1 v2 v3 s = ?s2\<lparr>emitted := es\<rparr>"
    unfolding emit_change_reaches_throttle [OF op rt]
    using emit_deliver_change_frame by blast
  obtain ref where
    slot: "throttle_slot ?s2 (Act EV_CHANGE) ?p =
             Some \<lparr>thr_timeoutObject = nextTimer s, thr_count = 0\<rparr>"
    and tm: "map_of (timers ?s2) (nextTimer s) = Some (50, CB_clear ref ?p (nextTimer s))"
    and rel: "throttle_slot (fire E' (nextTimer s) ?s2) (Act EV_CHANGE) ?p = None"
    using throttle_fresh [OF free fresh, of 50 E'] by blast
  have fr: "closed ?s2 = closed s" "opts ?s2 = opts s" "readyEmitted ?s2 = readyEmitted s"
    "pendingWrites ?s2 = pendingWrites s"
    using throttle_frame [of "Act EV_CHANGE" ?p 50 s] by simp_all
  have a: "throttle_slot (?s2\<lparr>emitted := es\<rparr>) (Act EV_CHANGE) ?p =
             Some \<lparr>thr_timeoutObject = nextTimer s, thr_count = 0\<rparr>"
    using slot by (simp add: throttle_slot_emitted)
  have b: "map_of (timers (?s2\<lparr>emitted := es\<rparr>)) (nextTimer s) =
             Some (50, CB_clear ref ?p (nextTimer s))"
    using tm by simp
  have c: "throttle_slot (fire E' (nextTimer s) (?s2\<lparr>emitted := es\<rparr>)) (Act EV_CHANGE) ?p = None"
    unfolding fire_clear_emitted [OF tm] by (rule rel)
  show ?thesis
    unfolding eq using a b c fr op by simp
qed

lemma emit_change_within_window:
  assumes op: "\<not> closed s"
    and rt: "awaitWriteFinish (opts s) = None \<or>
         (\<not> readyEmitted s \<and> map_of (pendingWrites s) (emit_path E (opts s) path) = None)"
    and free: "throttle_slot s (Act EV_CHANGE) (emit_path E (opts s) path) = None"
    and fresh: "map_of (timers s) (nextTimer s) = None"
    and same: "emit_path E' (opts s) path' = emit_path E (opts s) path"
  shows "emitted (FSWatcher_emit E' EV_CHANGE path' w1 w2 w3
                   (FSWatcher_emit E EV_CHANGE path v1 v2 v3 s)) =
           emitted (FSWatcher_emit E EV_CHANGE path v1 v2 v3 s) \<and>
         throttle_slot (FSWatcher_emit E' EV_CHANGE path' w1 w2 w3
                   (FSWatcher_emit E EV_CHANGE path v1 v2 v3 s)) (Act EV_CHANGE)
             (emit_path E (opts s) path) =
           Some \<lparr>thr_timeoutObject = nextTimer s, thr_count = 1\<rparr>"
proof -
  let ?s1 = "FSWatcher_emit E EV_CHANGE path v1 v2 v3 s"
  note r = emit_change_reserves [OF op rt free fresh, of v1 v2 v3 E']
  have op1: "\<not> closed ?s1" using r by simp
  have p1: "emit_path E' (opts ?s1) path' = emit_path E (opts s) path"
    using r same by simp
  have rt1: "awaitWriteFinish (opts ?s1) = None \<or>
         (\<not> readyEmitted ?s1 \<and> map_of (pendingWrites ?s1) (emit_path E' (opts ?s1) path') = None)"
    using r rt p1 by simp
  have slot1: "throttle_slot ?s1 (Act EV_CHANGE) (emit_path E' (opts ?s1) path') =
                 Some \<lparr>thr_timeoutObject = nextTimer s, thr_count = 0\<rparr>"
    using r p1 by simp
  show ?thesis
    using emit_change_dropped [OF op1 rt1 slot1, of w1 w2 w3] p1 by simp
qed

lemma emit_settle_skips_throttle:
  assumes op: "\<not> closed s" and awf: "awaitWriteFinish (opts s) = Some a"
    and rdy: "readyEmitted s"
  shows "throttled (FSWatcher_emit E EV_CHANGE path v1 v2 v3 s) = throttled s \<and>
         actionMaps (FSWatcher_emit E EV_CHANGE path v1 v2 v3 s) = actionMaps s \<and>
         emitted (FSWatcher_emit E EV_CHANGE path v1 v2 v3 s) = emitted s"
proof (cases "map_of (pendingWrites s) (emit_path E (opts s) path)")
  case None
  have free: "awaitWriteFinish (opts s) = None \<or>
              map_of (pendingWrites s) (emit_path E (opts s) path) = None"
    using None by simp
  show ?thesis
    using rdy awf
    by (subst (1 2 3) emit_plain [OF op free])
       (simp_all add: awaitWriteFinish_new_slot [OF awf None])
next
  case (Some pw)
  show ?thesis unfolding emit_pending [OF op awf Some] by simp
qed

lemma poll_settled_change:
  assumes awf: "awaitWriteFinish (opts s) = Some a"
    and slot: "map_of (pendingWrites s) (pc_path c) = Some pw"
    and st: "fs_stat E (pc_fullPath c) = Inr cur"
    and ev: "pc_event c = EV_CHANGE"
    and settled: "pc_threshold c \<le> now E -
           (case prev of
              None \<Rightarrow> lastChange pw
            | Some pr \<Rightarrow> if st_size cur \<noteq> st_size pr then now E else lastChange pw)"
  shows "emitted (poll E c prev s) =
           emitted s @
             [if length (pc_args c) > 2 then array_set (pc_args c) 2 (VStats cur)
              else pc_args c @ [VStats cur],
              VEvent EV_ALL #
              (if length (pc_args c) > 2 then array_set (pc_args c) 2 (VStats cur)
               else pc_args c @ [VStats cur])] \<and>
         throttled (poll E c prev s) = throttled s \<and>
         actionMaps (poll E c prev s) = actionMaps s"
  unfolding poll_tick [OF slot st awf]
  using settled ev
  by (simp add: Let_def awfEmit_def emitWithAll_def emit_def)

section \<open>Brace expansion: where the range limit is tested\<close>

lemma pop_append_push_error: "pop_append_push q x e = Inl err \<Longrightarrow> err = TypeError"
  by (auto simp: pop_append_push_def split: option.splits)

lemma self_in_nodes_of: "n \<in> set (nodes_of n)"
  by (cases n) simp

lemma child_nodes_of:
  "nnodes n = Some cs \<Longrightarrow> c \<in> set cs \<Longrightarrow> m \<in> set (nodes_of c) \<Longrightarrow> m \<in> set (nodes_of n)"
  by (cases n) auto

lemma walk_RangeError:
  "walk P os n q = Inl RangeError \<Longrightarrow> \<exists>m \<in> set (nodes_of n). limit_hit P os m"
  "walk_nodes P os b al e i cs st = Inl RangeError \<Longrightarrow>
     \<exists>c \<in> set cs. \<exists>m \<in> set (nodes_of c). limit_hit P os m"
proof (induction P os n q and P os b al e i cs st rule: walk_walk_nodes.induct)
  case (1 P os t v ns cm rg iv dl bo bc q)
  let ?n = "Node t v ns cm rg iv dl bo bc"
  show ?case
  proof (cases "iv \<or> dl")
    case True
    then show ?thesis
      using "1.prems" by (auto split: sum.splits dest: pop_append_push_error)
  next
    case nv: False
    show ?thesis
    proof (cases ns)
      case None
      then show ?thesis using "1.prems" nv by simp
    next
      case (Some children)
      show ?thesis
      proof (cases "t = T_brace \<and> length children = 2")
        case True
        then show ?thesis
          using "1.prems" nv Some by (auto split: sum.splits dest: pop_append_push_error)
      next
        case ne: False
        show ?thesis
        proof (cases "rg > 0")
          case True
          show ?thesis
          proof (cases "range_exceedsLimit P os children")
            case True
            then have "limit_hit P os ?n" using Some \<open>rg > 0\<close> by (simp add: limit_hit_def)
            then show ?thesis using self_in_nodes_of [of ?n] by blast
          next
            case False
            then show ?thesis
              using "1.prems" nv Some ne True
              by (auto split: sum.splits option.splits dest: pop_append_push_error)
          qed
        next
          case False
          let ?al = "t \<noteq> T_brace \<and> t \<noteq> T_root \<and> q \<noteq> None"
          let ?queue = "case q of None \<Rightarrow> [] | Some xs \<Rightarrow> if ?al then xs else []"
          have "walk_nodes P os (t = T_brace) ?al (encloseBrace ?n) 0 children (q, ?queue) =
                  Inl RangeError"
            using "1.prems" nv Some ne False
            by (cases q) (auto simp: Let_def split: sum.splits)
          then obtain c m where "c \<in> set children" "m \<in> set (nodes_of c)" "limit_hit P os m"
            using "1.IH" [OF refl nv Some ne False refl refl] by blast
          then show ?thesis using child_nodes_of [of ?n children c m] Some by auto
        qed
      qed
    qed
  qed
next
  case (2 P os isBrace aliased enclose i q queue)
  then show ?case by simp
next
  case (3 P os isBrace aliased enclose i child rest q queue)
  note prems = "3.prems" and IH = "3.IH"
  let ?tail = "\<lambda>st. walk_nodes P os isBrace aliased enclose (i + 1) rest st"
  show ?case
  proof (cases "ntype child = T_comma \<and> isBrace")
    case True
    let ?queue' = "queue @ (if i = 1 then [Str []] else []) @ [Str []]"
    have "?tail (if aliased then Some ?queue' else q, ?queue') = Inl RangeError"
      using prems True by (simp add: Let_def split: if_splits)
    from IH(1) [OF True refl this] show ?thesis by simp
  next
    case nc: False
    show ?thesis
    proof (cases "ntype child = T_close")
      case True
      show ?thesis
      proof (cases aliased)
        case al: True
        let ?queue' = "butlast queue @ [Arr (append' (pop queue) (Arr (butlast queue)) enclose)]"
        have "?tail (Some ?queue', ?queue') = Inl RangeError"
          using prems nc True al by (simp add: Let_def split: if_splits)
        from IH(2) [OF nc True al refl this] show ?thesis by simp
      next
        case nal: False
        show ?thesis
        proof (cases "pop_append_push q (Arr queue) enclose")
          case (Inl err)
          then show ?thesis
            using prems nc True nal pop_append_push_error [OF Inl] by simp
        next
          case (Inr q')
          have "?tail (Some q', queue) = Inl RangeError"
            using prems nc True nal Inr by simp
          from IH(3) [OF nc True nal Inr this] show ?thesis by simp
        qed
      qed
    next
      case ncl: False
      show ?thesis
      proof (cases "nvalue child \<noteq> [] \<and> ntype child \<noteq> T_open")
        case True
        let ?queue' = "butlast queue @ [Arr (append' (pop queue) (Str (nvalue child)) False)]"
        have "?tail (if aliased then Some ?queue' else q, ?queue') = Inl RangeError"
          using prems nc ncl True by (simp add: Let_def split: if_splits)
        from IH(4) [OF nc ncl True refl this] show ?thesis by simp
      next
        case nval: False
        show ?thesis
        proof (cases "nnodes child \<noteq> None")
          case True
          show ?thesis
          proof (cases "walk P os child (Some queue)")
            case (Inl err)
            then have "walk P os child (Some queue) = Inl RangeError"
              using prems nc ncl nval True by simp
            from IH(5) [OF nc ncl nval True this] show ?thesis by simp
          next
            case (Inr res)
            obtain q' r where res: "res = (q', r)" by (cases res)
            let ?queue' = "case q' of None \<Rightarrow> queue | Some xs \<Rightarrow> xs"
            have "?tail (if aliased then Some ?queue' else q, ?queue') = Inl RangeError"
              using prems nc ncl nval True Inr res by (simp add: Let_def split: if_splits)
            from IH(6) [OF nc ncl nval True Inr res [symmetric] refl this] show ?thesis by simp
          qed
        next
          case False
          have "?tail (q, queue) = Inl RangeError"
            using prems nc ncl nval False by simp
          from IH(7) [OF nc ncl nval False this] show ?thesis by simp
        qed
      qed
    qed
  qed
qed

lemma expand_RangeError:
  "expand P os ast = Inl RangeError \<Longrightarrow> \<exists>m \<in> set (nodes_of ast). limit_hit P os m"
  using walk_RangeError(1) [of P os ast None]
  by (auto simp: expand_def split: sum.splits)

lemma walk_range_node:
  assumes "\<not> iv" "\<not> dl" "\<not> (t = T_brace \<and> length children = 2)" "0 < rg"
  shows "walk P os (Node t v (Some children) cm rg iv dl bo bc) q = Inl RangeError
           \<longleftrightarrow> range_exceedsLimit P os children"
proof (cases "range_exceedsLimit P os children")
  case True
  then show ?thesis using assms by (auto simp: Let_def)
next
  case False
  show ?thesis
  proof (cases "fill P (reduce children) os")
    case None
    then show ?thesis using assms False by (auto simp: Let_def)
  next
    case (Some rng)
    let ?x = "if rng = []
              then Str (stringify (escapeInvalid os) None
                          (Node t v (Some children) cm rg iv dl bo bc))
              else Arr rng"
    show ?thesis
    proof (cases "pop_append_push q ?x False")
      case (Inl err)
      then show ?thesis
        using assms False Some pop_append_push_error [OF Inl] by (auto simp: Let_def)
    next
      case (Inr q')
      then show ?thesis using assms False Some by (auto simp: Let_def)
    qed
  qed
qed

lemma range_exceedsLimit_integers:
  assumes "reduce children = [a, b]"
    and "trim P a \<noteq> []" "trim P b \<noteq> []"
    and "Number_of_string P a = Fin x 1" "Number_of_string P b = Fin y 1"
    and "step os = A_undefined"
  shows "range_exceedsLimit P os children \<longleftrightarrow>
           (case rangeLimit os of
              A_undefined \<Rightarrow> 1000 \<le> y - x
            | A_false \<Rightarrow> False
            | A_number l \<Rightarrow> l \<le> y - x
            | A_text s \<Rightarrow> js_ge (Fin (y - x) 1) (Number_of_string P s))"
  using assms
  by (cases "rangeLimit os")
     (simp_all add: range_exceedsLimit_def exceedsLimit_def nth_arg_def)

section \<open>Claims\<close>

text \<open>
  Claim C3. For every error the handler \<^verbatim>\<open>_handleError\<close> receives, an \<^verbatim>\<open>error\<close> event is
  emitted exactly when the code is neither \<^verbatim>\<open>ENOENT\<close> nor \<^verbatim>\<open>ENOTDIR\<close> and, if
  \<^verbatim>\<open>ignorePermissionErrors\<close> is set, neither \<^verbatim>\<open>EPERM\<close> nor \<^verbatim>\<open>EACCES\<close>. In the other case the
  watcher is left as it was, so \<^verbatim>\<open>ENOENT\<close> and \<^verbatim>\<open>ENOTDIR\<close> are absorbed silently whatever the
  options are.
\<close>

theorem handleError_policy:
  "snd (FSWatcher_handleError (Some e) s) =
     (if err_code e \<noteq> Some ''ENOENT'' \<and> err_code e \<noteq> Some ''ENOTDIR'' \<and>
         (ignorePermissionErrors (opts s) \<longrightarrow>
            err_code e \<noteq> Some ''EPERM'' \<and> err_code e \<noteq> Some ''EACCES'')
      then s\<lparr>emitted := emitted s @ [[VEvent EV_ERROR, VErr e]]\<rparr>
      else s)"
  by (auto simp: FSWatcher_handleError_def emit_def Let_def)

theorem handleError_policy_witness:
  "emitted (snd (FSWatcher_handleError (Some (Error (Some ''EPERM'')))
      (new_FSWatcher (default_options\<lparr>ignorePermissionErrors := True\<rparr>)))) = []
   \<and> emitted (snd (FSWatcher_handleError (Some (Error (Some ''EPERM'')))
      (new_FSWatcher default_options))) = [[VEvent EV_ERROR, VErr (Error (Some ''EPERM''))]]
   \<and> emitted (snd (FSWatcher_handleError (Some (Error (Some ''ENOENT'')))
      (new_FSWatcher default_options))) = []
   \<and> emitted (snd (FSWatcher_handleError (Some (Error (Some ''EIO'')))
      (new_FSWatcher (default_options\<lparr>ignorePermissionErrors := True\<rparr>)))) =
       [[VEvent EV_ERROR, VErr (Error (Some ''EIO''))]]"
  using handleError_policy [of "Error (Some ''EPERM'')"
          "new_FSWatcher (default_options\<lparr>ignorePermissionErrors := True\<rparr>)"]
        handleError_policy [of "Error (Some ''EPERM'')" "new_FSWatcher default_options"]
        handleError_policy [of "Error (Some ''ENOENT'')" "new_FSWatcher default_options"]
        handleError_policy [of "Error (Some ''EIO'')"
          "new_FSWatcher (default_options\<lparr>ignorePermissionErrors := True\<rparr>)"]
  by (simp add: new_FSWatcher_def default_options_def)



text \<open>
  Claim C7, as amended. On a tick of the polling backend the listener of a path is called,
  with the fresh stat, exactly when the size differs from the previous stat, or
  \<^verbatim>\<open>mtimeMs\<close> is greater than the previous \<^verbatim>\<open>mtimeMs\<close>, or \<^verbatim>\<open>mtimeMs\<close> is zero. An
  \<^verbatim>\<open>mtimeMs\<close> that is smaller than the previous one, the size being the same, signals
  nothing: the claim's "differs" is too wide, as the counterexample shows.
\<close>

theorem watchFile_signals_change:
  "Listener_call f p st \<in> set (watchFile_callback fullPath c cur prev) \<longleftrightarrow>
     (st_size cur \<noteq> st_size prev \<or> st_mtimeMs cur > st_mtimeMs prev \<or> st_mtimeMs cur = 0)
     \<and> f \<in> set (cont_listeners c) \<and> p = cont_pathArg c \<and> st = cur"
  by (auto simp: watchFile_callback_def Let_def)

theorem watchFile_signals_change_witness:
  "Listener_call 0 ''y'' \<lparr>st_size = 12, st_mtimeMs = 3000\<rparr>
     \<in> set (watchFile_tick polled_instances ''/T/y''
          \<lparr>st_size = 12, st_mtimeMs = 3000\<rparr> \<lparr>st_size = 10, st_mtimeMs = 2000\<rparr>)"
  using watchFile_signals_change [of 0 "''y''" "\<lparr>st_size = 12, st_mtimeMs = 3000\<rparr>" "''/T/y''"
      "\<lparr>cont_listeners = [0], cont_rawEmitters = [1],
        cont_options = \<lparr>wf_persistent = True, wf_interval = 50\<rparr>, cont_pathArg = ''y''\<rparr>"
      "\<lparr>st_size = 12, st_mtimeMs = 3000\<rparr>" "\<lparr>st_size = 10, st_mtimeMs = 2000\<rparr>"]
  by (simp add: watchFile_tick_def polled_instances_def setFsWatchFileListener_def)

theorem watchFile_older_mtime_counterexample:
  "st_mtimeMs \<lparr>st_size = 10, st_mtimeMs = 1000\<rparr> \<noteq> st_mtimeMs \<lparr>st_size = 10, st_mtimeMs = 2000\<rparr>
   \<and> watchFile_tick polled_instances ''/T/y''
        \<lparr>st_size = 10, st_mtimeMs = 1000\<rparr> \<lparr>st_size = 10, st_mtimeMs = 2000\<rparr> =
      [RawEmitter_call 1 EV_CHANGE ''/T/y''
         \<lparr>st_size = 10, st_mtimeMs = 1000\<rparr> \<lparr>st_size = 10, st_mtimeMs = 2000\<rparr>]"
  by (simp add: watchFile_tick_def polled_instances_def setFsWatchFileListener_def
      watchFile_callback_def)

text \<open>
  Claim C6, as amended. For every action type and path: an acquisition that finds no slot
  returns a fresh one (counter 0) and arms a timer of the given window whose firing releases
  the slot; an acquisition that finds the slot held increments its counter, returns the
  negative result and changes nothing else. A \<^verbatim>\<open>change\<close> event that reaches the throttle step
  of the pipeline (the watcher is open, and write-settle is not configured, or \<^verbatim>\<open>ready\<close> has
  not fired and no write is pending for the path) with the slot of its path free reserves
  the slot for 50 ms and is emitted if it carries a stat or \<^verbatim>\<open>alwaysStat\<close> is off; a
  \<^verbatim>\<open>change\<close> of the same path that follows it before the release, or any \<^verbatim>\<open>change\<close> that
  reaches the step while the slot is held, is dropped: nothing is emitted, no timer and no
  pending write is added, the counter is incremented. With write-settle configured and
  \<^verbatim>\<open>ready\<close> fired a \<^verbatim>\<open>change\<close> leaves the throttle table as it is, whatever the slot, and is
  emitted by the poll that finds the file settled, which does not read the table either. The
  counterexample is such an event: it arrives 20 ms after an emitted \<^verbatim>\<open>change\<close> of the same
  path, the slot still held, and is emitted 10 ms later.
\<close>

theorem throttle_contract:
  "(throttle_slot s k p = None \<and> map_of (timers s) (nextTimer s) = None \<longrightarrow>
      (\<exists>ref. fst (FSWatcher_throttle k p w s) = Some (ref, p, nextTimer s) \<and>
         throttle_slot (snd (FSWatcher_throttle k p w s)) k p =
           Some \<lparr>thr_timeoutObject = nextTimer s, thr_count = 0\<rparr> \<and>
         map_of (timers (snd (FSWatcher_throttle k p w s))) (nextTimer s) =
           Some (w, CB_clear ref p (nextTimer s)) \<and>
         throttle_slot (fire E (nextTimer s) (snd (FSWatcher_throttle k p w s))) k p = None))
   \<and> (throttle_slot s k p = Some t \<longrightarrow>
        fst (FSWatcher_throttle k p w s) = None \<and>
        throttle_slot (snd (FSWatcher_throttle k p w s)) k p =
          Some (t\<lparr>thr_count := thr_count t + 1\<rparr>) \<and>
        timers (snd (FSWatcher_throttle k p w s)) = timers s \<and>
        emitted (snd (FSWatcher_throttle k p w s)) = emitted s)
   \<and> (\<not> closed s \<and>
        (awaitWriteFinish (opts s) = None \<or>
         (\<not> readyEmitted s \<and> map_of (pendingWrites s) (emit_path E (opts s) path) = None)) \<and>
        throttle_slot s (Act EV_CHANGE) (emit_path E (opts s) path) = Some t' \<longrightarrow>
        emitted (FSWatcher_emit E EV_CHANGE path v1 v2 v3 s) = emitted s \<and>
        timers (FSWatcher_emit E EV_CHANGE path v1 v2 v3 s) = timers s \<and>
        pendingWrites (FSWatcher_emit E EV_CHANGE path v1 v2 v3 s) = pendingWrites s \<and>
        throttle_slot (FSWatcher_emit E EV_CHANGE path v1 v2 v3 s) (Act EV_CHANGE)
            (emit_path E (opts s) path) =
          Some (t'\<lparr>thr_count := thr_count t' + 1\<rparr>))
   \<and> (\<not> closed s \<and>
        (awaitWriteFinish (opts s) = None \<or>
         (\<not> readyEmitted s \<and> map_of (pendingWrites s) (emit_path E (opts s) path) = None)) \<and>
        throttle_slot s (Act EV_CHANGE) (emit_path E (opts s) path) = None \<and>
        map_of (timers s) (nextTimer s) = None \<longrightarrow>
        throttle_slot (FSWatcher_emit E EV_CHANGE path v1 v2 v3 s) (Act EV_CHANGE)
            (emit_path E (opts s) path) =
          Some \<lparr>thr_timeoutObject = nextTimer s, thr_count = 0\<rparr> \<and>
        (\<exists>ref. map_of (timers (FSWatcher_emit E EV_CHANGE path v1 v2 v3 s)) (nextTimer s) =
                 Some (50, CB_clear ref (emit_path E (opts s) path) (nextTimer s))) \<and>
        throttle_slot (fire E' (nextTimer s) (FSWatcher_emit E EV_CHANGE path v1 v2 v3 s))
            (Act EV_CHANGE) (emit_path E (opts s) path) = None \<and>
        ((alwaysStat (opts s) \<longrightarrow> v1 \<noteq> Undefined) \<longrightarrow>
           emitted (FSWatcher_emit E EV_CHANGE path v1 v2 v3 s) =
             emitted s @
               [emit_args EV_CHANGE (emit_path E (opts s) path) v1 v2 v3,
                VEvent EV_ALL # emit_args EV_CHANGE (emit_path E (opts s) path) v1 v2 v3]) \<and>
        (emit_path E' (opts s) path' = emit_path E (opts s) path \<longrightarrow>
           emitted (FSWatcher_emit E' EV_CHANGE path' w1 w2 w3
                     (FSWatcher_emit E EV_CHANGE path v1 v2 v3 s)) =
             emitted (FSWatcher_emit E EV_CHANGE path v1 v2 v3 s) \<and>
           throttle_slot (FSWatcher_emit E' EV_CHANGE path' w1 w2 w3
                     (FSWatcher_emit E EV_CHANGE path v1 v2 v3 s)) (Act EV_CHANGE)
               (emit_path E (opts s) path) =
             Some \<lparr>thr_timeoutObject = nextTimer s, thr_count = 1\<rparr>))
   \<and> (\<not> closed s \<and> awaitWriteFinish (opts s) = Some a \<and> readyEmitted s \<longrightarrow>
        throttled (FSWatcher_emit E EV_CHANGE path v1 v2 v3 s) = throttled s \<and>
        actionMaps (FSWatcher_emit E EV_CHANGE path v1 v2 v3 s) = actionMaps s \<and>
        emitted (FSWatcher_emit E EV_CHANGE path v1 v2 v3 s) = emitted s)
   \<and> (awaitWriteFinish (opts s) = Some a \<and>
        map_of (pendingWrites s) (pc_path c) = Some pw \<and>
        fs_stat E (pc_fullPath c) = Inr cur \<and> pc_event c = EV_CHANGE \<and>
        pc_threshold c \<le> now E -
          (case prev of
             None \<Rightarrow> lastChange pw
           | Some pr \<Rightarrow> if st_size cur \<noteq> st_size pr then now E else lastChange pw) \<longrightarrow>
        emitted (poll E c prev s) =
          emitted s @
            [if length (pc_args c) > 2 then array_set (pc_args c) 2 (VStats cur)
             else pc_args c @ [VStats cur],
             VEvent EV_ALL #
             (if length (pc_args c) > 2 then array_set (pc_args c) 2 (VStats cur)
              else pc_args c @ [VStats cur])] \<and>
        throttled (poll E c prev s) = throttled s \<and>
        actionMaps (poll E c prev s) = actionMaps s)"
proof -
  let ?p = "emit_path E (opts s) path"
  let ?s1 = "FSWatcher_emit E EV_CHANGE path v1 v2 v3 s"
  let ?route = "awaitWriteFinish (opts s) = None \<or>
         (\<not> readyEmitted s \<and> map_of (pendingWrites s) ?p = None)"
  have c1: "throttle_slot s k p = None \<and> map_of (timers s) (nextTimer s) = None \<longrightarrow>
      (\<exists>ref. fst (FSWatcher_throttle k p w s) = Some (ref, p, nextTimer s) \<and>
         throttle_slot (snd (FSWatcher_throttle k p w s)) k p =
           Some \<lparr>thr_timeoutObject = nextTimer s, thr_count = 0\<rparr> \<and>
         map_of (timers (snd (FSWatcher_throttle k p w s))) (nextTimer s) =
           Some (w, CB_clear ref p (nextTimer s)) \<and>
         throttle_slot (fire E (nextTimer s) (snd (FSWatcher_throttle k p w s))) k p = None)"
    using throttle_fresh [of s k p w E] by blast
  have c2: "throttle_slot s k p = Some t \<longrightarrow>
        fst (FSWatcher_throttle k p w s) = None \<and>
        throttle_slot (snd (FSWatcher_throttle k p w s)) k p =
          Some (t\<lparr>thr_count := thr_count t + 1\<rparr>) \<and>
        timers (snd (FSWatcher_throttle k p w s)) = timers s \<and>
        emitted (snd (FSWatcher_throttle k p w s)) = emitted s"
    using throttle_held [of s k p t w] by blast
  have c3: "\<not> closed s \<and> ?route \<and> throttle_slot s (Act EV_CHANGE) ?p = Some t' \<longrightarrow>
        emitted ?s1 = emitted s \<and> timers ?s1 = timers s \<and>
        pendingWrites ?s1 = pendingWrites s \<and>
        throttle_slot ?s1 (Act EV_CHANGE) ?p = Some (t'\<lparr>thr_count := thr_count t' + 1\<rparr>)"
    using emit_change_dropped [of s E path t' v1 v2 v3] by blast
  have c4: "\<not> closed s \<and> ?route \<and> throttle_slot s (Act EV_CHANGE) ?p = None \<and>
        map_of (timers s) (nextTimer s) = None \<longrightarrow>
        throttle_slot ?s1 (Act EV_CHANGE) ?p =
          Some \<lparr>thr_timeoutObject = nextTimer s, thr_count = 0\<rparr> \<and>
        (\<exists>ref. map_of (timers ?s1) (nextTimer s) = Some (50, CB_clear ref ?p (nextTimer s))) \<and>
        throttle_slot (fire E' (nextTimer s) ?s1) (Act EV_CHANGE) ?p = None \<and>
        ((alwaysStat (opts s) \<longrightarrow> v1 \<noteq> Undefined) \<longrightarrow>
           emitted ?s1 =
             emitted s @ [emit_args EV_CHANGE ?p v1 v2 v3,
                          VEvent EV_ALL # emit_args EV_CHANGE ?p v1 v2 v3]) \<and>
        (emit_path E' (opts s) path' = ?p \<longrightarrow>
           emitted (FSWatcher_emit E' EV_CHANGE path' w1 w2 w3 ?s1) = emitted ?s1 \<and>
           throttle_slot (FSWatcher_emit E' EV_CHANGE path' w1 w2 w3 ?s1) (Act EV_CHANGE) ?p =
             Some \<lparr>thr_timeoutObject = nextTimer s, thr_count = 1\<rparr>)"
  proof (intro impI)
    assume h: "\<not> closed s \<and> ?route \<and> throttle_slot s (Act EV_CHANGE) ?p = None \<and>
        map_of (timers s) (nextTimer s) = None"
    then have op: "\<not> closed s" and rt: ?route
      and free: "throttle_slot s (Act EV_CHANGE) ?p = None"
      and fresh: "map_of (timers s) (nextTimer s) = None"
      by simp_all
    have em: "(alwaysStat (opts s) \<longrightarrow> v1 \<noteq> Undefined) \<longrightarrow>
           emitted ?s1 =
             emitted s @ [emit_args EV_CHANGE ?p v1 v2 v3,
                          VEvent EV_ALL # emit_args EV_CHANGE ?p v1 v2 v3]"
      unfolding emit_change_reaches_throttle [OF op rt]
      using emit_deliver_change_free [OF free, of v1 E "emit_args EV_CHANGE ?p v1 v2 v3"]
      by blast
    show "throttle_slot ?s1 (Act EV_CHANGE) ?p =
          Some \<lparr>thr_timeoutObject = nextTimer s, thr_count = 0\<rparr> \<and>
        (\<exists>ref. map_of (timers ?s1) (nextTimer s) = Some (50, CB_clear ref ?p (nextTimer s))) \<and>
        throttle_slot (fire E' (nextTimer s) ?s1) (Act EV_CHANGE) ?p = None \<and>
        ((alwaysStat (opts s) \<longrightarrow> v1 \<noteq> Undefined) \<longrightarrow>
           emitted ?s1 =
             emitted s @ [emit_args EV_CHANGE ?p v1 v2 v3,
                          VEvent EV_ALL # emit_args EV_CHANGE ?p v1 v2 v3]) \<and>
        (emit_path E' (opts s) path' = ?p \<longrightarrow>
           emitted (FSWatcher_emit E' EV_CHANGE path' w1 w2 w3 ?s1) = emitted ?s1 \<and>
           throttle_slot (FSWatcher_emit E' EV_CHANGE path' w1 w2 w3 ?s1) (Act EV_CHANGE) ?p =
             Some \<lparr>thr_timeoutObject = nextTimer s, thr_count = 1\<rparr>)"
      using emit_change_reserves [OF op rt free fresh, of v1 v2 v3 E']
        emit_change_within_window [OF op rt free fresh, of E' path' w1 w2 w3 v1 v2 v3] em
      by blast
  qed
  have c5: "\<not> closed s \<and> awaitWriteFinish (opts s) = Some a \<and> readyEmitted s \<longrightarrow>
        throttled ?s1 = throttled s \<and> actionMaps ?s1 = actionMaps s \<and>
        emitted ?s1 = emitted s"
    using emit_settle_skips_throttle [of s a E path v1 v2 v3] by blast
  have c6: "awaitWriteFinish (opts s) = Some a \<and>
        map_of (pendingWrites s) (pc_path c) = Some pw \<and>
        fs_stat E (pc_fullPath c) = Inr cur \<and> pc_event c = EV_CHANGE \<and>
        pc_threshold c \<le> now E -
          (case prev of
             None \<Rightarrow> lastChange pw
           | Some pr \<Rightarrow> if st_size cur \<noteq> st_size pr then now E else lastChange pw) \<longrightarrow>
        emitted (poll E c prev s) =
          emitted s @
            [if length (pc_args c) > 2 then array_set (pc_args c) 2 (VStats cur)
             else pc_args c @ [VStats cur],
             VEvent EV_ALL #
             (if length (pc_args c) > 2 then array_set (pc_args c) 2 (VStats cur)
              else pc_args c @ [VStats cur])] \<and>
        throttled (poll E c prev s) = throttled s \<and>
        actionMaps (poll E c prev s) = actionMaps s"
    using poll_settled_change [of s a c pw E cur prev] by blast
  show ?thesis using c1 c2 c3 c4 c5 c6 by (intro conjI)
qed

theorem throttle_contract_witness:
  "fst (FSWatcher_throttle (Act EV_CHANGE) ''a'' 50 (new_FSWatcher default_options)) =
     Some (0, ''a'', 0)
   \<and> timers throttled_once = [(0, 50, CB_clear 0 ''a'' 0)]
   \<and> throttle_slot (fire (posix_env 50 no_file) 0 throttled_once) (Act EV_CHANGE) ''a'' = None
   \<and> fst (FSWatcher_throttle (Act EV_CHANGE) ''a'' 50 throttled_once) = None
   \<and> throttle_slot (snd (FSWatcher_throttle (Act EV_CHANGE) ''a'' 50 throttled_once))
        (Act EV_CHANGE) ''a'' = Some \<lparr>thr_timeoutObject = 0, thr_count = 1\<rparr>
   \<and> emitted (FSWatcher_emit (posix_env 20 no_file) EV_CHANGE ''a''
        Undefined Undefined Undefined throttled_once) = []
   \<and> emitted (FSWatcher_emit (posix_env 0 no_file) EV_CHANGE ''a''
        Undefined Undefined Undefined (new_FSWatcher default_options)) =
       [[VEvent EV_CHANGE, VPath ''a''], [VEvent EV_ALL, VEvent EV_CHANGE, VPath ''a'']]
   \<and> emitted (FSWatcher_emit (posix_env 20 no_file) EV_CHANGE ''a''
        Undefined Undefined Undefined
        (FSWatcher_emit (posix_env 0 no_file) EV_CHANGE ''a''
           Undefined Undefined Undefined (new_FSWatcher default_options))) =
       [[VEvent EV_CHANGE, VPath ''a''], [VEvent EV_ALL, VEvent EV_CHANGE, VPath ''a'']]
   \<and> throttle_slot (FSWatcher_emit (posix_env 20 no_file) EV_CHANGE ''a''
        Undefined Undefined Undefined
        (FSWatcher_emit (posix_env 0 no_file) EV_CHANGE ''a''
           Undefined Undefined Undefined (new_FSWatcher default_options)))
        (Act EV_CHANGE) ''a'' = Some \<lparr>thr_timeoutObject = 0, thr_count = 1\<rparr>
   \<and> throttle_slot (fire (posix_env 50 no_file) 0
        (FSWatcher_emit (posix_env 0 no_file) EV_CHANGE ''a''
           Undefined Undefined Undefined (new_FSWatcher default_options)))
        (Act EV_CHANGE) ''a'' = None
   \<and> throttle_slot settle_t3 (Act EV_CHANGE) ''T/f'' =
       Some \<lparr>thr_timeoutObject = 0, thr_count = 0\<rparr>
   \<and> emitted (poll (posix_env 30 (file_of_size 6 20))
        \<lparr>pc_path = ''T/f'', pc_fullPath = ''T/f'', pc_threshold = 10, pc_event = EV_CHANGE,
         pc_args = [VEvent EV_CHANGE, VPath ''T/f'', VStats \<lparr>st_size = 6, st_mtimeMs = 20\<rparr>]\<rparr>
        None settle_t3) =
       [[VEvent EV_CHANGE, VPath ''T/f'', VStats \<lparr>st_size = 5, st_mtimeMs = 0\<rparr>],
        [VEvent EV_ALL, VEvent EV_CHANGE, VPath ''T/f'', VStats \<lparr>st_size = 5, st_mtimeMs = 0\<rparr>],
        [VEvent EV_READY],
        [VEvent EV_CHANGE, VPath ''T/f'', VStats \<lparr>st_size = 6, st_mtimeMs = 20\<rparr>],
        [VEvent EV_ALL, VEvent EV_CHANGE, VPath ''T/f'', VStats \<lparr>st_size = 6, st_mtimeMs = 20\<rparr>]]"
  using throttle_contract [where s = "new_FSWatcher default_options" and k = "Act EV_CHANGE"
          and p = "''a''" and w = 50 and E = "posix_env 0 no_file" and path = "''a''"
          and E' = "posix_env 20 no_file" and path' = "''a''"
          and ?v1.0 = Undefined and ?v2.0 = Undefined and ?v3.0 = Undefined
          and ?w1.0 = Undefined and ?w2.0 = Undefined and ?w3.0 = Undefined]
        throttle_contract [where s = "new_FSWatcher default_options" and k = "Act EV_CHANGE"
          and p = "''a''" and w = 50 and E = "posix_env 0 no_file" and path = "''a''"
          and E' = "posix_env 50 no_file" and path' = "''a''"
          and ?v1.0 = Undefined and ?v2.0 = Undefined and ?v3.0 = Undefined]
        throttle_contract [where s = throttled_once and k = "Act EV_CHANGE" and p = "''a''"
          and t = "\<lparr>thr_timeoutObject = 0, thr_count = 0\<rparr>" and w = 50
          and E = "posix_env 20 no_file" and path = "''a''"
          and t' = "\<lparr>thr_timeoutObject = 0, thr_count = 0\<rparr>"
          and ?v1.0 = Undefined and ?v2.0 = Undefined and ?v3.0 = Undefined]
        throttle_contract [where s = settle_t2
          and a = "\<lparr>stabilityThreshold = 10, pollInterval = 10\<rparr>"
          and E = "posix_env 20 (file_of_size 6 20)" and path = "''T/f''"
          and ?v1.0 = "VStats \<lparr>st_size = 6, st_mtimeMs = 20\<rparr>"
          and ?v2.0 = Undefined and ?v3.0 = Undefined]
        throttle_contract [where s = settle_t3
          and a = "\<lparr>stabilityThreshold = 10, pollInterval = 10\<rparr>"
          and E = "posix_env 30 (file_of_size 6 20)"
          and c = "\<lparr>pc_path = ''T/f'', pc_fullPath = ''T/f'', pc_threshold = 10,
                   pc_event = EV_CHANGE,
                   pc_args = [VEvent EV_CHANGE, VPath ''T/f'',
                              VStats \<lparr>st_size = 6, st_mtimeMs = 20\<rparr>]\<rparr>"
          and pw = "\<lparr>lastChange = 20, cancelWait_event = EV_CHANGE, timeoutHandle = 1\<rparr>"
          and cur = "\<lparr>st_size = 6, st_mtimeMs = 20\<rparr>" and prev = None]
  by (simp add: throttled_once_def settle_t1_def settle_t2_def settle_t3_def settle_options_def
      default_options_def plain_fns_def posix_env_def file_of_size_def no_file_def
      new_FSWatcher_def FSWatcher_add_def unifyPaths_def FSWatcher_emit_def emit_deliver_def
      FSWatcher_throttle_def setTimeout_def emitWithAll_def emit_def emit_path_def
      emit_args_def FSWatcher_emitReady_def ready_closure_def FSWatcher_awaitWriteFinish_def
      fire_def run_callback_def poll_def awfEmit_def array_set_def throttle_slot_def
      throttle_clear_def clearTimeout_def startsWith_def BANG_def SLASH_GLOBSTAR_def Let_def)

theorem throttle_bypassed_counterexample:
  "throttle_slot settle_t2 (Act EV_CHANGE) ''T/f'' =
     Some \<lparr>thr_timeoutObject = 0, thr_count = 0\<rparr>
   \<and> timers settle_t2 = [(0, 50, CB_clear 0 ''T/f'' 0)]
   \<and> emitted settle_t4 =
      [[VEvent EV_CHANGE, VPath ''T/f'', VStats \<lparr>st_size = 5, st_mtimeMs = 0\<rparr>],
       [VEvent EV_ALL, VEvent EV_CHANGE, VPath ''T/f'', VStats \<lparr>st_size = 5, st_mtimeMs = 0\<rparr>],
       [VEvent EV_READY],
       [VEvent EV_CHANGE, VPath ''T/f'', VStats \<lparr>st_size = 6, st_mtimeMs = 20\<rparr>],
       [VEvent EV_ALL, VEvent EV_CHANGE, VPath ''T/f'', VStats \<lparr>st_size = 6, st_mtimeMs = 20\<rparr>]]"
  by (simp add: settle_t1_def settle_t2_def settle_t3_def settle_t4_def settle_options_def
      default_options_def plain_fns_def posix_env_def file_of_size_def no_file_def
      new_FSWatcher_def FSWatcher_add_def unifyPaths_def FSWatcher_emit_def emit_deliver_def
      FSWatcher_throttle_def setTimeout_def emitWithAll_def emit_def emit_path_def
      emit_args_def FSWatcher_emitReady_def ready_closure_def FSWatcher_awaitWriteFinish_def
      fire_def run_callback_def poll_def awfEmit_def array_set_def throttle_slot_def
      startsWith_def BANG_def SLASH_GLOBSTAR_def Let_def)

text \<open>
  Claim C1, as amended. In an open watcher with the atomic option, let an \<^verbatim>\<open>add\<close> arrive for
  a path that has a pending-unlink slot (and that no pending write withholds). Then the slot
  is removed and the other slots are kept, so the timer of the pending unlinks no longer
  delivers this \<^verbatim>\<open>unlink\<close>; the event goes on as a \<^verbatim>\<open>change\<close>, and the call emits either
  nothing or one \<^verbatim>\<open>change\<close> of the path with its copy on \<^verbatim>\<open>all\<close>, never an \<^verbatim>\<open>add\<close> or
  an \<^verbatim>\<open>unlink\<close>. When write-settle does not take the event (not configured, or \<^verbatim>\<open>ready\<close>
  not fired): it emits the one \<^verbatim>\<open>change\<close> if the \<^verbatim>\<open>change\<close> throttle slot of the path is
  free and the event carries a stat or \<^verbatim>\<open>alwaysStat\<close> is off; and if the slot is held the
  \<^verbatim>\<open>change\<close> is dropped: nothing is emitted, no timer is added, the counter of the slot is
  incremented. The counterexample is the atomic save that follows a \<^verbatim>\<open>change\<close> within its
  throttle window: nothing is emitted for it.
\<close>

theorem atomic_add_after_unlink:
  assumes "\<not> closed s" and "truthy_atomic (atomic (opts s))"
    and "map_of (pendingUnlinks s) (emit_path E (opts s) path) = Some u"
    and "awaitWriteFinish (opts s) = None \<or>
         map_of (pendingWrites s) (emit_path E (opts s) path) = None"
  shows "pendingUnlinks (FSWatcher_emit E EV_ADD path v1 v2 v3 s) =
           AList.delete (emit_path E (opts s) path) (pendingUnlinks s)
       \<and> map_of (pendingUnlinks (FSWatcher_emit E EV_ADD path v1 v2 v3 s))
           (emit_path E (opts s) path) = None
       \<and> (emitted (FSWatcher_emit E EV_ADD path v1 v2 v3 s) = emitted s \<or>
          (\<exists>rest. emitted (FSWatcher_emit E EV_ADD path v1 v2 v3 s) =
             emitted s @
               [VEvent EV_CHANGE # VPath (emit_path E (opts s) path) # rest,
                VEvent EV_ALL # VEvent EV_CHANGE # VPath (emit_path E (opts s) path) # rest]))
       \<and> ((awaitWriteFinish (opts s) = None \<or> \<not> readyEmitted s) \<and>
           throttle_slot s (Act EV_CHANGE) (emit_path E (opts s) path) = None \<and>
           (alwaysStat (opts s) \<longrightarrow> v1 \<noteq> Undefined) \<longrightarrow>
           emitted (FSWatcher_emit E EV_ADD path v1 v2 v3 s) =
             emitted s @
               [emit_args EV_CHANGE (emit_path E (opts s) path) v1 v2 v3,
                VEvent EV_ALL # emit_args EV_CHANGE (emit_path E (opts s) path) v1 v2 v3])
       \<and> ((awaitWriteFinish (opts s) = None \<or> \<not> readyEmitted s) \<and>
           throttle_slot s (Act EV_CHANGE) (emit_path E (opts s) path) = Some t \<longrightarrow>
           emitted (FSWatcher_emit E EV_ADD path v1 v2 v3 s) = emitted s \<and>
           timers (FSWatcher_emit E EV_ADD path v1 v2 v3 s) = timers s \<and>
           throttle_slot (FSWatcher_emit E EV_ADD path v1 v2 v3 s) (Act EV_CHANGE)
               (emit_path E (opts s) path) =
             Some (t\<lparr>thr_count := thr_count t + 1\<rparr>))
       \<and> emitted (drain_pendingUnlinks (FSWatcher_emit E EV_ADD path v1 v2 v3 s)) =
           emitted (FSWatcher_emit E EV_ADD path v1 v2 v3 s) @
           concat (map (\<lambda>(pth, entry). [entry, VEvent EV_ALL # entry])
                     (AList.delete (emit_path E (opts s) path) (pendingUnlinks s)))"
proof -
  let ?p = "emit_path E (opts s) path"
  let ?s' = "FSWatcher_emit E EV_ADD path v1 v2 v3 s"
  let ?s1 = "s\<lparr>pendingUnlinks := AList.delete ?p (pendingUnlinks s)\<rparr>"
  let ?args = "emit_args EV_CHANGE ?p v1 v2 v3"
  have eq: "?s' =
     (case (if readyEmitted s then awaitWriteFinish (opts s) else None) of
        Some a \<Rightarrow> FSWatcher_awaitWriteFinish E ?p (stabilityThreshold a) EV_CHANGE ?args ?s1
      | None \<Rightarrow> emit_deliver E EV_CHANGE ?p ?args v1 ?s1)"
    unfolding emit_collapse [OF assms(1,4,2,3), of v1 v2 v3] array_set_emit_args ..
  have pu: "pendingUnlinks ?s' = AList.delete ?p (pendingUnlinks s)"
    unfolding eq by (simp split: option.splits)
  have gone: "map_of (pendingUnlinks ?s') ?p = None"
    unfolding pu by (simp add: delete_conv')
  have shape: "emitted ?s' = emitted s \<or>
          (\<exists>rest. emitted ?s' =
             emitted s @ [VEvent EV_CHANGE # VPath ?p # rest,
                          VEvent EV_ALL # VEvent EV_CHANGE # VPath ?p # rest])"
  proof (cases "if readyEmitted s then awaitWriteFinish (opts s) else None")
    case None
    then show ?thesis
      unfolding eq using emit_deliver_change_shape [of E ?p v1 v2 v3 ?s1] by simp
  next
    case (Some a)
    then show ?thesis unfolding eq by simp
  qed
  have one: "(awaitWriteFinish (opts s) = None \<or> \<not> readyEmitted s) \<and>
           throttle_slot s (Act EV_CHANGE) ?p = None \<and>
           (alwaysStat (opts s) \<longrightarrow> v1 \<noteq> Undefined) \<longrightarrow>
           emitted ?s' = emitted s @ [?args, VEvent EV_ALL # ?args]"
  proof
    assume h: "(awaitWriteFinish (opts s) = None \<or> \<not> readyEmitted s) \<and>
           throttle_slot s (Act EV_CHANGE) ?p = None \<and>
           (alwaysStat (opts s) \<longrightarrow> v1 \<noteq> Undefined)"
    then have r: "(if readyEmitted s then awaitWriteFinish (opts s) else None) = None"
      by auto
    have f: "throttle_slot ?s1 (Act EV_CHANGE) ?p = None"
      using h by (simp add: throttle_slot_def split: option.splits)
    have a: "alwaysStat (opts ?s1) \<longrightarrow> v1 \<noteq> Undefined"
      using h by simp
    show "emitted ?s' = emitted s @ [?args, VEvent EV_ALL # ?args]"
      unfolding eq r using emit_deliver_change_free [OF f a, of E ?args] by simp
  qed
  have held: "(awaitWriteFinish (opts s) = None \<or> \<not> readyEmitted s) \<and>
           throttle_slot s (Act EV_CHANGE) ?p = Some t \<longrightarrow>
           emitted ?s' = emitted s \<and> timers ?s' = timers s \<and>
           throttle_slot ?s' (Act EV_CHANGE) ?p = Some (t\<lparr>thr_count := thr_count t + 1\<rparr>)"
  proof
    assume h: "(awaitWriteFinish (opts s) = None \<or> \<not> readyEmitted s) \<and>
           throttle_slot s (Act EV_CHANGE) ?p = Some t"
    then have r: "(if readyEmitted s then awaitWriteFinish (opts s) else None) = None"
      by auto
    have f: "throttle_slot ?s1 (Act EV_CHANGE) ?p = Some t"
      using h by (simp add: throttle_slot_def split: option.splits)
    have e: "?s' = snd (FSWatcher_throttle (Act EV_CHANGE) ?p 50 ?s1)"
      unfolding eq r using emit_deliver_throttled [OF f, of E ?args v1] by simp
    show "emitted ?s' = emitted s \<and> timers ?s' = timers s \<and>
           throttle_slot ?s' (Act EV_CHANGE) ?p = Some (t\<lparr>thr_count := thr_count t + 1\<rparr>)"
      unfolding e using throttle_held [OF f, of 50] by simp
  qed
  have drain: "emitted (drain_pendingUnlinks ?s') =
           emitted ?s' @ concat (map (\<lambda>(pth, entry). [entry, VEvent EV_ALL # entry])
                     (AList.delete ?p (pendingUnlinks s)))"
    using drain_shape [of ?s'] unfolding pu .
  show ?thesis using pu gone shape one held drain by blast
qed

theorem atomic_add_after_unlink_witness:
  "emitted (FSWatcher_emit (posix_env 20 (file_of_size 6 20)) EV_ADD ''T/c''
       (VStats \<lparr>st_size = 6, st_mtimeMs = 20\<rparr>) Undefined Undefined atomic_b1) =
     [[VEvent EV_CHANGE, VPath ''T/c'', VStats \<lparr>st_size = 6, st_mtimeMs = 20\<rparr>],
      [VEvent EV_ALL, VEvent EV_CHANGE, VPath ''T/c'', VStats \<lparr>st_size = 6, st_mtimeMs = 20\<rparr>]]
   \<and> pendingUnlinks (FSWatcher_emit (posix_env 20 (file_of_size 6 20)) EV_ADD ''T/c''
       (VStats \<lparr>st_size = 6, st_mtimeMs = 20\<rparr>) Undefined Undefined atomic_b1) = []
   \<and> throttle_slot atomic_a2 (Act EV_CHANGE) ''T/c'' =
       Some \<lparr>thr_timeoutObject = 0, thr_count = 0\<rparr>
   \<and> throttle_slot (FSWatcher_emit (posix_env 20 (file_of_size 6 20)) EV_ADD ''T/c''
       (VStats \<lparr>st_size = 6, st_mtimeMs = 20\<rparr>) Undefined Undefined atomic_a2)
       (Act EV_CHANGE) ''T/c'' = Some \<lparr>thr_timeoutObject = 0, thr_count = 1\<rparr>
   \<and> timers (FSWatcher_emit (posix_env 20 (file_of_size 6 20)) EV_ADD ''T/c''
       (VStats \<lparr>st_size = 6, st_mtimeMs = 20\<rparr>) Undefined Undefined atomic_a2) =
       [(0, 50, CB_clear 0 ''T/c'' 0), (1, 100, CB_unlinks)]"
proof -
  note defs = atomic_b1_def atomic_a1_def atomic_a2_def atomic_a3_def atomic_a4_def
      default_options_def posix_env_def file_of_size_def no_file_def new_FSWatcher_def
      FSWatcher_emit_def emit_deliver_def FSWatcher_throttle_def setTimeout_def
      emitWithAll_def emit_def emit_path_def emit_args_def fire_def run_callback_def
      drain_pendingUnlinks_def array_set_def throttle_slot_def startsWith_def Let_def
  have 1: "\<not> closed atomic_b1" by (simp add: defs)
  have 2: "truthy_atomic (atomic (opts atomic_b1))" by (simp add: defs)
  have 3: "map_of (pendingUnlinks atomic_b1)
             (emit_path (posix_env 20 (file_of_size 6 20)) (opts atomic_b1) ''T/c'') =
           Some [VEvent EV_UNLINK, VPath ''T/c'']" by (simp add: defs)
  have 4: "awaitWriteFinish (opts atomic_b1) = None \<or>
           map_of (pendingWrites atomic_b1)
             (emit_path (posix_env 20 (file_of_size 6 20)) (opts atomic_b1) ''T/c'') = None"
    by (simp add: defs)
  have 5: "\<not> closed atomic_a2" by (simp add: defs)
  have 6: "truthy_atomic (atomic (opts atomic_a2))" by (simp add: defs)
  have 7: "map_of (pendingUnlinks atomic_a2)
             (emit_path (posix_env 20 (file_of_size 6 20)) (opts atomic_a2) ''T/c'') =
           Some [VEvent EV_UNLINK, VPath ''T/c'']" by (simp add: defs)
  have 8: "awaitWriteFinish (opts atomic_a2) = None \<or>
           map_of (pendingWrites atomic_a2)
             (emit_path (posix_env 20 (file_of_size 6 20)) (opts atomic_a2) ''T/c'') = None"
    by (simp add: defs)
  show ?thesis
    using atomic_add_after_unlink [OF 1 2 3 4, where
        ?v1.0 = "VStats \<lparr>st_size = 6, st_mtimeMs = 20\<rparr>" and ?v2.0 = Undefined
        and ?v3.0 = Undefined]
      atomic_add_after_unlink [OF 5 6 7 8, where
        t = "\<lparr>thr_timeoutObject = 0, thr_count = 0\<rparr>"
        and ?v1.0 = "VStats \<lparr>st_size = 6, st_mtimeMs = 20\<rparr>" and ?v2.0 = Undefined
        and ?v3.0 = Undefined]
    by (simp add: defs)
qed

theorem atomic_add_throttled_counterexample:
  "map_of (pendingUnlinks atomic_a2) ''T/c'' = Some [VEvent EV_UNLINK, VPath ''T/c'']
   \<and> emitted atomic_a3 = emitted atomic_a2
   \<and> pendingUnlinks atomic_a3 = []
   \<and> emitted atomic_a4 =
      [[VEvent EV_CHANGE, VPath ''T/c'', VStats \<lparr>st_size = 5, st_mtimeMs = 0\<rparr>],
       [VEvent EV_ALL, VEvent EV_CHANGE, VPath ''T/c'', VStats \<lparr>st_size = 5, st_mtimeMs = 0\<rparr>]]"
  by (simp add: atomic_b1_def atomic_a1_def atomic_a2_def atomic_a3_def atomic_a4_def
      default_options_def posix_env_def file_of_size_def no_file_def new_FSWatcher_def
      FSWatcher_emit_def emit_deliver_def FSWatcher_throttle_def setTimeout_def
      emitWithAll_def emit_def emit_path_def emit_args_def fire_def run_callback_def
      drain_pendingUnlinks_def array_set_def throttle_slot_def startsWith_def Let_def)

text \<open>
  Claim C2, as amended. With \<^verbatim>\<open>awaitWriteFinish\<close> configured, an \<^verbatim>\<open>add\<close> or \<^verbatim>\<open>change\<close> that
  reaches the write-settle step (watcher open, \<^verbatim>\<open>ready\<close> fired, no pending write for the path)
  is withheld: nothing is emitted, a pending-write slot is made with the current time as
  \<^verbatim>\<open>lastChange\<close>, and the first poll is armed after the poll interval. While the slot is
  there, any event for the path only sets \<^verbatim>\<open>lastChange\<close> to the current time. A poll whose
  stat succeeds first sets \<^verbatim>\<open>lastChange\<close> to the current time if there is a previous poll and
  its size differs; then, exactly when the current time minus \<^verbatim>\<open>lastChange\<close> has reached the
  threshold, it emits the withheld event with this poll's stat and drops the slot, and
  otherwise it emits nothing and arms the next poll. So with a positive threshold a poll that
  differs in size from the poll before it never emits; but the first poll compares no sizes,
  and the counterexample is an event emitted by the first and only poll of a file that is
  still growing.
\<close>

theorem write_settle:
  "(awaitWriteFinish (opts s) = Some a \<and> \<not> closed s \<and> readyEmitted s \<and>
    (event = EV_ADD \<or> event = EV_CHANGE) \<and>
    map_of (pendingWrites s) (emit_path E (opts s) path) = None \<longrightarrow>
      emitted (FSWatcher_emit E event path v1 v2 v3 s) = emitted s \<and>
      (\<exists>c. map_of (pendingWrites (FSWatcher_emit E event path v1 v2 v3 s))
              (emit_path E (opts s) path) =
            Some \<lparr>lastChange = now E, cancelWait_event = pc_event c,
                  timeoutHandle = nextTimer s\<rparr> \<and>
           timers (FSWatcher_emit E event path v1 v2 v3 s) =
             timers s @ [(nextTimer s, pollInterval a, CB_poll c None)] \<and>
           pc_path c = emit_path E (opts s) path \<and>
           pc_threshold c = stabilityThreshold a \<and>
           pc_args c = emit_args (pc_event c) (emit_path E (opts s) path) v1 v2 v3 \<and>
           (pc_event c = event \<or> (event = EV_ADD \<and> pc_event c = EV_CHANGE))))
   \<and> (awaitWriteFinish (opts s) = Some a \<and> \<not> closed s \<and>
       map_of (pendingWrites s) (emit_path E (opts s) path) = Some pw \<longrightarrow>
         FSWatcher_emit E event path v1 v2 v3 s =
           s\<lparr>pendingWrites := AList.update (emit_path E (opts s) path)
                 (pw\<lparr>lastChange := now E\<rparr>) (pendingWrites s)\<rparr>)
   \<and> (awaitWriteFinish (opts s) = Some a \<and>
       map_of (pendingWrites s) (pc_path c) = Some pw \<and>
       fs_stat E (pc_fullPath c) = Inr cur \<longrightarrow>
         (let L = (case prev of
                     None \<Rightarrow> lastChange pw
                   | Some pr \<Rightarrow>
                       if st_size cur \<noteq> st_size pr then now E else lastChange pw);
              args = (if length (pc_args c) > 2 then array_set (pc_args c) 2 (VStats cur)
                      else pc_args c @ [VStats cur])
          in (now E - L \<ge> pc_threshold c \<longrightarrow>
                emitted (poll E c prev s) =
                  emitted s @ [args] @
                    (if pc_event c = EV_ERROR then [] else [VEvent EV_ALL # args]) \<and>
                VStats cur \<in> set args \<and>
                map_of (pendingWrites (poll E c prev s)) (pc_path c) = None)
           \<and> (now E - L < pc_threshold c \<longrightarrow>
                emitted (poll E c prev s) = emitted s \<and>
                map_of (pendingWrites (poll E c prev s)) (pc_path c) =
                  Some (pw\<lparr>lastChange := L, timeoutHandle := nextTimer s\<rparr>) \<and>
                timers (poll E c prev s) =
                  timers s @ [(nextTimer s, pollInterval a, CB_poll c (Some cur))])
           \<and> (0 < pc_threshold c \<and> (\<exists>pr. prev = Some pr \<and> st_size cur \<noteq> st_size pr) \<longrightarrow>
                emitted (poll E c prev s) = emitted s)))"
proof (intro conjI impI)
  assume "awaitWriteFinish (opts s) = Some a \<and> \<not> closed s \<and> readyEmitted s \<and>
    (event = EV_ADD \<or> event = EV_CHANGE) \<and>
    map_of (pendingWrites s) (emit_path E (opts s) path) = None"
  then show "emitted (FSWatcher_emit E event path v1 v2 v3 s) = emitted s"
    and "\<exists>c. map_of (pendingWrites (FSWatcher_emit E event path v1 v2 v3 s))
              (emit_path E (opts s) path) =
            Some \<lparr>lastChange = now E, cancelWait_event = pc_event c,
                  timeoutHandle = nextTimer s\<rparr> \<and>
           timers (FSWatcher_emit E event path v1 v2 v3 s) =
             timers s @ [(nextTimer s, pollInterval a, CB_poll c None)] \<and>
           pc_path c = emit_path E (opts s) path \<and>
           pc_threshold c = stabilityThreshold a \<and>
           pc_args c = emit_args (pc_event c) (emit_path E (opts s) path) v1 v2 v3 \<and>
           (pc_event c = event \<or> (event = EV_ADD \<and> pc_event c = EV_CHANGE))"
    using emit_withheld [of s a event E path v1 v2 v3] by blast+
next
  assume "awaitWriteFinish (opts s) = Some a \<and> \<not> closed s \<and>
       map_of (pendingWrites s) (emit_path E (opts s) path) = Some pw"
  then show "FSWatcher_emit E event path v1 v2 v3 s =
           s\<lparr>pendingWrites := AList.update (emit_path E (opts s) path)
                 (pw\<lparr>lastChange := now E\<rparr>) (pendingWrites s)\<rparr>"
    using emit_pending [of s a E path pw event v1 v2 v3] by blast
next
  assume h: "awaitWriteFinish (opts s) = Some a \<and>
       map_of (pendingWrites s) (pc_path c) = Some pw \<and>
       fs_stat E (pc_fullPath c) = Inr cur"
  then have eq: "poll E c prev s =
     (let L = (case prev of
                 None \<Rightarrow> lastChange pw
               | Some pr \<Rightarrow> if st_size cur \<noteq> st_size pr then now E else lastChange pw)
      in if now E - L \<ge> pc_threshold c
         then awfEmit c None (Some cur)
                (s\<lparr>pendingWrites := AList.delete (pc_path c) (pendingWrites s)\<rparr>)
         else s\<lparr>timers := timers s @ [(nextTimer s, pollInterval a, CB_poll c (Some cur))],
                nextTimer := nextTimer s + 1,
                pendingWrites := AList.update (pc_path c)
                  (pw\<lparr>lastChange := L, timeoutHandle := nextTimer s\<rparr>) (pendingWrites s)\<rparr>)"
    using poll_tick [of s c pw E cur a prev] by blast
  have mem: "VStats cur \<in> set (if length (pc_args c) > 2 then array_set (pc_args c) 2 (VStats cur)
                      else pc_args c @ [VStats cur])"
    by (auto simp: array_set_def set_update_memI)
  show "let L = (case prev of
                     None \<Rightarrow> lastChange pw
                   | Some pr \<Rightarrow>
                       if st_size cur \<noteq> st_size pr then now E else lastChange pw);
              args = (if length (pc_args c) > 2 then array_set (pc_args c) 2 (VStats cur)
                      else pc_args c @ [VStats cur])
          in (now E - L \<ge> pc_threshold c \<longrightarrow>
                emitted (poll E c prev s) =
                  emitted s @ [args] @
                    (if pc_event c = EV_ERROR then [] else [VEvent EV_ALL # args]) \<and>
                VStats cur \<in> set args \<and>
                map_of (pendingWrites (poll E c prev s)) (pc_path c) = None)
           \<and> (now E - L < pc_threshold c \<longrightarrow>
                emitted (poll E c prev s) = emitted s \<and>
                map_of (pendingWrites (poll E c prev s)) (pc_path c) =
                  Some (pw\<lparr>lastChange := L, timeoutHandle := nextTimer s\<rparr>) \<and>
                timers (poll E c prev s) =
                  timers s @ [(nextTimer s, pollInterval a, CB_poll c (Some cur))])
           \<and> (0 < pc_threshold c \<and> (\<exists>pr. prev = Some pr \<and> st_size cur \<noteq> st_size pr) \<longrightarrow>
                emitted (poll E c prev s) = emitted s)"
    unfolding eq Let_def
    using mem
    by (auto simp: awfEmit_def emitted_emitWithAll emitWithAll_def emit_def Let_def
        update_conv' delete_conv' split: if_splits)
qed

theorem write_settle_witness:
  "emitted grow_g1 = [[VEvent EV_READY]]
   \<and> emitted (FSWatcher_emit (posix_env 30 (file_of_size 5 30)) EV_CHANGE ''T/big''
        (VStats \<lparr>st_size = 5, st_mtimeMs = 30\<rparr>) Undefined Undefined grow_g1) =
       [[VEvent EV_READY]]
   \<and> emitted (poll (posix_env 50 (file_of_size 10 50)) grow_closure None grow_g1) =
       [[VEvent EV_READY]]
   \<and> emitted (poll (posix_env 250 (file_of_size 10 50)) grow_closure None grow_g1) =
       [[VEvent EV_READY],
        [VEvent EV_ADD, VPath ''T/big'', VStats \<lparr>st_size = 10, st_mtimeMs = 50\<rparr>],
        [VEvent EV_ALL, VEvent EV_ADD, VPath ''T/big'', VStats \<lparr>st_size = 10, st_mtimeMs = 50\<rparr>]]
   \<and> emitted (poll (posix_env 300 (file_of_size 20 100)) grow_closure
        (Some \<lparr>st_size = 10, st_mtimeMs = 50\<rparr>) grow_g2) = [[VEvent EV_READY]]"
  using write_settle [where s = grow_ready
          and a = "\<lparr>stabilityThreshold = 200, pollInterval = 50\<rparr>" and event = EV_ADD
          and E = "posix_env 0 (file_of_size 1 0)" and path = "''T/big''"
          and ?v1.0 = "VStats \<lparr>st_size = 1, st_mtimeMs = 0\<rparr>"
          and ?v2.0 = Undefined and ?v3.0 = Undefined]
        write_settle [where s = grow_g1
          and a = "\<lparr>stabilityThreshold = 200, pollInterval = 50\<rparr>" and event = EV_CHANGE
          and E = "posix_env 30 (file_of_size 5 30)" and path = "''T/big''"
          and pw = "\<lparr>lastChange = 0, cancelWait_event = EV_ADD, timeoutHandle = 0\<rparr>"
          and ?v1.0 = "VStats \<lparr>st_size = 5, st_mtimeMs = 30\<rparr>"
          and ?v2.0 = Undefined and ?v3.0 = Undefined]
        write_settle [where s = grow_g1
          and a = "\<lparr>stabilityThreshold = 200, pollInterval = 50\<rparr>"
          and E = "posix_env 50 (file_of_size 10 50)" and c = grow_closure
          and pw = "\<lparr>lastChange = 0, cancelWait_event = EV_ADD, timeoutHandle = 0\<rparr>"
          and cur = "\<lparr>st_size = 10, st_mtimeMs = 50\<rparr>" and prev = None]
        write_settle [where s = grow_g1
          and a = "\<lparr>stabilityThreshold = 200, pollInterval = 50\<rparr>"
          and E = "posix_env 250 (file_of_size 10 50)" and c = grow_closure
          and pw = "\<lparr>lastChange = 0, cancelWait_event = EV_ADD, timeoutHandle = 0\<rparr>"
          and cur = "\<lparr>st_size = 10, st_mtimeMs = 50\<rparr>" and prev = None]
        write_settle [where s = grow_g2
          and a = "\<lparr>stabilityThreshold = 200, pollInterval = 50\<rparr>"
          and E = "posix_env 300 (file_of_size 20 100)" and c = grow_closure
          and pw = "\<lparr>lastChange = 0, cancelWait_event = EV_ADD, timeoutHandle = 1\<rparr>"
          and cur = "\<lparr>st_size = 20, st_mtimeMs = 100\<rparr>"
          and prev = "Some \<lparr>st_size = 10, st_mtimeMs = 50\<rparr>"]
  by (simp add: grow_options_def grow_ready_def grow_closure_def grow_g1_def grow_g2_def
      quick_options_def quick_q1_def quick_q2_def default_options_def plain_fns_def
      posix_env_def file_of_size_def no_file_def new_FSWatcher_def FSWatcher_add_def
      unifyPaths_def FSWatcher_emit_def emit_deliver_def FSWatcher_throttle_def
      setTimeout_def emitWithAll_def emit_def emit_path_def emit_args_def
      FSWatcher_emitReady_def ready_closure_def FSWatcher_awaitWriteFinish_def fire_def
      run_callback_def poll_def awfEmit_def array_set_def startsWith_def BANG_def
      SLASH_GLOBSTAR_def Let_def)

theorem write_settle_first_poll_counterexample:
  "timers quick_q1 =
     [(0, 100,
       CB_poll \<lparr>pc_path = ''T/big'', pc_fullPath = ''T/big'', pc_threshold = 50,
                pc_event = EV_ADD,
                pc_args = [VEvent EV_ADD, VPath ''T/big'',
                           VStats \<lparr>st_size = 1, st_mtimeMs = 1000\<rparr>]\<rparr> None)]
   \<and> emitted quick_q1 = [[VEvent EV_READY]]
   \<and> emitted quick_q2 =
       [[VEvent EV_READY],
        [VEvent EV_ADD, VPath ''T/big'', VStats \<lparr>st_size = 7, st_mtimeMs = 1100\<rparr>],
        [VEvent EV_ALL, VEvent EV_ADD, VPath ''T/big'',
         VStats \<lparr>st_size = 7, st_mtimeMs = 1100\<rparr>]]
   \<and> pendingWrites quick_q2 = [] \<and> timers quick_q2 = []"
  by (simp add: grow_options_def grow_ready_def grow_closure_def grow_g1_def grow_g2_def
      quick_options_def quick_q1_def quick_q2_def default_options_def plain_fns_def
      posix_env_def file_of_size_def no_file_def new_FSWatcher_def FSWatcher_add_def
      unifyPaths_def FSWatcher_emit_def emit_deliver_def FSWatcher_throttle_def
      setTimeout_def emitWithAll_def emit_def emit_path_def emit_args_def
      FSWatcher_emitReady_def ready_closure_def FSWatcher_awaitWriteFinish_def fire_def
      run_callback_def poll_def awfEmit_def array_set_def startsWith_def BANG_def
      SLASH_GLOBSTAR_def Let_def)

text \<open>
  Claim C8, as amended. When the flattened argument of \<^verbatim>\<open>add\<close> holds an entry that is not a
  string, \<^verbatim>\<open>add\<close> throws a \<^verbatim>\<open>TypeError\<close> and leaves every part of the watcher as it was
  (no path added, the ignore set and the readiness count untouched) except the closed flag,
  which it has set to false before it looks at the argument. On an open watcher nothing
  changes; a closed watcher is open afterwards, which is the counterexample.
\<close>

theorem add_invalid_argument:
  "\<not> list_all is_string (flatten (arrify paths)) \<longrightarrow>
     FSWatcher_add E F paths s = (Inl TypeError, s\<lparr>closed := False\<rparr>) \<and>
     (\<not> closed s \<longrightarrow> snd (FSWatcher_add E F paths s) = s)"
  by (simp add: FSWatcher_add_def unifyPaths_def Let_def)

theorem add_invalid_argument_witness:
  "FSWatcher_add (posix_env 0 no_file) plain_fns (JArray [JString ''T'', JArray [JNumber 42]])
     (new_FSWatcher default_options) = (Inl TypeError, new_FSWatcher default_options)"
  using add_invalid_argument [of "JArray [JString ''T'', JArray [JNumber 42]]"
          "posix_env 0 no_file" plain_fns "new_FSWatcher default_options"]
  by (simp add: new_FSWatcher_def)

theorem add_invalid_reopens_counterexample:
  "closed closed_watcher
   \<and> FSWatcher_add (posix_env 0 no_file) plain_fns (JArray [JString ''T'', JNumber 42])
        closed_watcher = (Inl TypeError, closed_watcher\<lparr>closed := False\<rparr>)
   \<and> closed (snd (FSWatcher_add (posix_env 0 no_file) plain_fns
                     (JArray [JString ''T'', JNumber 42]) closed_watcher)) = False"
  by (simp add: FSWatcher_add_def unifyPaths_def Let_def closed_watcher_def FSWatcher_close_def
      new_FSWatcher_def)

text \<open>
  Claim C5 says that after \<^verbatim>\<open>close()\<close> nothing more is emitted and no timer is armed, every
  throttle, pending-write and pending-unlink slot being cancelled. \<^verbatim>\<open>close()\<close> empties the
  throttle table, but it leaves the pending unlinks, the pending writes and all timers as
  they are, and the callbacks of these timers emit without looking at the closed flag. The
  theorem runs the code on two watchers: one closed while an \<^verbatim>\<open>unlink\<close> is pending, whose
  timer then emits the \<^verbatim>\<open>unlink\<close>; one closed while a write is pending, whose poll then emits
  the \<^verbatim>\<open>add\<close>.
\<close>

theorem close_leaves_pending_slots_armed:
  "closed closed_with_unlink
   \<and> pendingUnlinks closed_with_unlink = [(''T/c'', [VEvent EV_UNLINK, VPath ''T/c''])]
   \<and> timers closed_with_unlink = [(0, 100, CB_unlinks)]
   \<and> emitted closed_with_unlink = []
   \<and> emitted (fire (posix_env 100 no_file) 0 closed_with_unlink) =
       [[VEvent EV_UNLINK, VPath ''T/c''], [VEvent EV_ALL, VEvent EV_UNLINK, VPath ''T/c'']]
   \<and> closed closed_with_write
   \<and> map_of (pendingWrites closed_with_write) ''T/big'' =
       Some \<lparr>lastChange = 0, cancelWait_event = EV_ADD, timeoutHandle = 0\<rparr>
   \<and> timers closed_with_write = [(0, 50, CB_poll grow_closure None)]
   \<and> emitted closed_with_write = [[VEvent EV_READY]]
   \<and> emitted (fire (posix_env 250 (file_of_size 10 50)) 0 closed_with_write) =
       [[VEvent EV_READY],
        [VEvent EV_ADD, VPath ''T/big'', VStats \<lparr>st_size = 10, st_mtimeMs = 50\<rparr>],
        [VEvent EV_ALL, VEvent EV_ADD, VPath ''T/big'',
         VStats \<lparr>st_size = 10, st_mtimeMs = 50\<rparr>]]"
  by (simp add: grow_options_def grow_ready_def grow_closure_def grow_g1_def closed_with_write_def
      closed_with_unlink_def atomic_b1_def FSWatcher_close_def drain_pendingUnlinks_def
      default_options_def plain_fns_def posix_env_def file_of_size_def no_file_def
      new_FSWatcher_def FSWatcher_add_def unifyPaths_def FSWatcher_emit_def emit_deliver_def
      FSWatcher_throttle_def setTimeout_def emitWithAll_def emit_def emit_path_def
      emit_args_def FSWatcher_emitReady_def ready_closure_def FSWatcher_awaitWriteFinish_def
      fire_def run_callback_def poll_def awfEmit_def array_set_def startsWith_def BANG_def
      SLASH_GLOBSTAR_def Let_def)

text \<open>
  Claim C4 says that \<^verbatim>\<open>ready\<close> is emitted once in the life of a watcher. The closure behind
  \<^verbatim>\<open>_emitReady\<close> replaces the property by \<^verbatim>\<open>EMPTY_FN\<close> when it emits, which silences every
  later call made through the property; but \<^verbatim>\<open>_addToNodeFs\<close> calls the closure through a
  local that it read on entry. The theorem runs \<^verbatim>\<open>watch(['missing', 'fileA'])\<close>: the count
  is 2, both paths enter with the closure in hand, the failed stat of \<^verbatim>\<open>missing\<close> makes two
  calls (the local, then the property in \<^verbatim>\<open>add\<close>), which emits \<^verbatim>\<open>ready\<close>, and the end of
  \<^verbatim>\<open>fileA\<close> makes a third call through its local, which emits \<^verbatim>\<open>ready\<close> again.
\<close>

theorem ready_emitted_twice:
  "readyCount two_paths_added = Some 2
   \<and> addToNodeFs_enter False two_paths_added = (Inr READY_CLOSURE, two_paths_added)
   \<and> emitted two_paths_missing = []
   \<and> emitted two_paths_settled = [[VEvent EV_READY]]
   \<and> emitReady_slot two_paths_settled = EMPTY_FN
   \<and> emitted two_paths_done =
       [[VEvent EV_READY],
        [VEvent EV_ADD, VPath ''fileA'', VStats \<lparr>st_size = 3, st_mtimeMs = 1\<rparr>],
        [VEvent EV_ALL, VEvent EV_ADD, VPath ''fileA'', VStats \<lparr>st_size = 3, st_mtimeMs = 1\<rparr>],
        [VEvent EV_READY]]"
  by (simp add: two_paths_added_def two_paths_missing_def two_paths_settled_def two_paths_done_def
      addToNodeFs_enter_def addToNodeFs_resume_def add_settled_def FSWatcher_handleError_def
      default_options_def plain_fns_def posix_env_def file_of_size_def no_file_def
      new_FSWatcher_def FSWatcher_add_def unifyPaths_def FSWatcher_emit_def emit_deliver_def
      FSWatcher_throttle_def setTimeout_def emitWithAll_def emit_def emit_path_def
      emit_args_def FSWatcher_emitReady_def ready_closure_def startsWith_def BANG_def
      SLASH_GLOBSTAR_def Let_def)

text \<open>
  Claim C9, as the code has it. \<^verbatim>\<open>expand\<close> fails with the range-limit error only if some
  node of the tree is a range node at which the test of the limit holds; a range node that
  the walk enters fails with that error exactly when its test holds. For a range with two
  integer ends \<open>x \<le> y\<close>, no step and a numeric limit \<open>l\<close> (1000 when \<^verbatim>\<open>rangeLimit\<close> is absent)
  the test is that the range has more than \<open>l\<close> elements, \<open>l < y - x + 1\<close>; with
  \<^verbatim>\<open>rangeLimit\<close> \<^verbatim>\<open>false\<close> the test of a range with two ends never holds. The limit is
  tested range by range: the alternations of a pattern are not counted, as the
  counterexample after the witness shows on \<^verbatim>\<open>{a,b,c}\<close> with a limit of 2.
\<close>

theorem range_limit_per_range:
  "(expand P os ast = Inl RangeError \<longrightarrow> (\<exists>m \<in> set (nodes_of ast). limit_hit P os m))
   \<and> (\<not> iv \<and> \<not> dl \<and> \<not> (t = T_brace \<and> length children = 2) \<and> 0 < rg \<longrightarrow>
        (walk P os (Node t v (Some children) cm rg iv dl bo bc) q = Inl RangeError
           \<longleftrightarrow> range_exceedsLimit P os children))
   \<and> (reduce children = [a, b] \<and> trim P a \<noteq> [] \<and> trim P b \<noteq> []
        \<and> Number_of_string P a = Fin x 1 \<and> Number_of_string P b = Fin y 1 \<and> x \<le> y
        \<and> step os = A_undefined
        \<and> (rangeLimit os = A_number l \<or> rangeLimit os = A_undefined \<and> l = 1000) \<longrightarrow>
        (range_exceedsLimit P os children \<longleftrightarrow> l < y - x + 1))
   \<and> (length (reduce children) = 2 \<and> rangeLimit os = A_false \<longrightarrow>
        \<not> range_exceedsLimit P os children)"
proof (intro conjI impI)
  assume "expand P os ast = Inl RangeError"
  then show "\<exists>m \<in> set (nodes_of ast). limit_hit P os m" by (rule expand_RangeError)
next
  assume "\<not> iv \<and> \<not> dl \<and> \<not> (t = T_brace \<and> length children = 2) \<and> 0 < rg"
  then show "walk P os (Node t v (Some children) cm rg iv dl bo bc) q = Inl RangeError
               \<longleftrightarrow> range_exceedsLimit P os children"
    using walk_range_node [of iv dl t children rg P os v cm bo bc q] by blast
next
  assume h: "reduce children = [a, b] \<and> trim P a \<noteq> [] \<and> trim P b \<noteq> []
        \<and> Number_of_string P a = Fin x 1 \<and> Number_of_string P b = Fin y 1 \<and> x \<le> y
        \<and> step os = A_undefined
        \<and> (rangeLimit os = A_number l \<or> rangeLimit os = A_undefined \<and> l = 1000)"
  then show "range_exceedsLimit P os children \<longleftrightarrow> l < y - x + 1"
    using range_exceedsLimit_integers [of children a b P x y os] by auto
next
  assume "length (reduce children) = 2 \<and> rangeLimit os = A_false"
  then show "\<not> range_exceedsLimit P os children"
    by (simp add: range_exceedsLimit_def exceedsLimit_def nth_arg_def nth_append)
qed

theorem range_limit_per_range_witness:
  "expand decimal_prims (limit_options A_undefined) (root_of [brace_1_2000]) = Inl RangeError
   \<and> (\<exists>m \<in> set (nodes_of (root_of [brace_1_2000])).
         limit_hit decimal_prims (limit_options A_undefined) m)
   \<and> walk decimal_prims (limit_options A_undefined) brace_1_2000 (Some []) = Inl RangeError
   \<and> range_exceedsLimit decimal_prims (limit_options A_undefined) children_1_2000
   \<and> \<not> range_exceedsLimit decimal_prims (limit_options (A_number 2000)) children_1_2000
   \<and> \<not> range_exceedsLimit decimal_prims (limit_options A_false) children_1_2000"
  using range_limit_per_range [where P = decimal_prims and os = "limit_options A_undefined"
          and ast = "root_of [brace_1_2000]" and iv = False and dl = False and t = T_brace
          and children = children_1_2000 and rg = 1 and v = "[]" and cm = 0 and bo = True
          and bc = True and q = "Some []" and a = "''1''" and b = "''2000''" and x = 1
          and y = 2000 and l = 1000]
        range_limit_per_range [where P = decimal_prims and os = "limit_options (A_number 2000)"
          and ast = "root_of [brace_1_2000]" and iv = False and dl = False and t = T_brace
          and children = children_1_2000 and rg = 1 and v = "[]" and cm = 0 and bo = True
          and bc = True and q = "Some []" and a = "''1''" and b = "''2000''" and x = 1
          and y = 2000 and l = 2000]
        range_limit_per_range [where P = decimal_prims and os = "limit_options A_false"
          and children = children_1_2000]
  by (simp add: expand_def limit_options_def root_of_def brace_1_2000_def children_1_2000_def
        leaf_def decimal_prims_def range_exceedsLimit_def exceedsLimit_def nth_arg_def
        reduce_def decimal_Number_def trim_blanks_def limit_hit_def)

theorem alternation_above_limit_counterexample:
  "expand decimal_prims (limit_options (A_number 2)) (root_of [brace_a_b_c]) =
     Inr [''a'', ''b'', ''c'']
   \<and> expand decimal_prims (limit_options (A_number 2)) (root_of [brace_a_b_c, brace_a_b_c]) =
     Inr [''aa'', ''ab'', ''ac'', ''ba'', ''bb'', ''bc'', ''ca'', ''cb'', ''cc'']"
  by code_simp

end
